theory Spec2Isabelle
  imports Main "HOL-Library.AList" "HOL-Library.Multiset"
begin

section \<open>JavaScript values\<close>

text \<open>
  The handlers of the NHL server receive parsed JSON typed \<open>any\<close> and probe it
  dynamically, so upstream documents are modelled as untyped JavaScript values.
  \<open>Undefined\<close> is the value of a missing property. Numbers are the integers
  (the counts, ids and points of the API); fractional numbers are outside the model.
  An object is an association list read by the first entry of a key.
\<close>

datatype jsval =
    Undefined
  | JNull
  | JBool bool
  | JNum int
  | JStr string
  | JArr "jsval list"
  | JObj "(string \<times> jsval) list"

type_synonym obj = "(string \<times> jsval) list"

datatype js_error = TypeError

text \<open>Truthiness, as \<open>if (v)\<close>, \<open>!v\<close>, \<open>a || b\<close> and \<open>a && b\<close> see it.\<close>

fun truthy :: "jsval \<Rightarrow> bool" where
  "truthy Undefined = False"
| "truthy JNull = False"
| "truthy (JBool b) = b"
| "truthy (JNum n) = (n \<noteq> 0)"
| "truthy (JStr s) = (s \<noteq> [])"
| "truthy (JArr xs) = True"
| "truthy (JObj kvs) = True"

definition js_or :: "jsval \<Rightarrow> jsval \<Rightarrow> jsval" where
  "js_or a b = (if truthy a then a else b)"

definition js_and :: "jsval \<Rightarrow> jsval \<Rightarrow> jsval" where
  "js_and a b = (if truthy a then b else a)"

definition nullish :: "jsval \<Rightarrow> bool" where
  "nullish v = (v = Undefined \<or> v = JNull)"

definition obj_get :: "obj \<Rightarrow> string \<Rightarrow> jsval" where
  "obj_get ob k = (case map_of ob k of None \<Rightarrow> Undefined | Some v \<Rightarrow> v)"

text \<open>
  \<open>field v k\<close> is the property read \<open>v.k\<close> on a receiver that is neither
  \<open>null\<close> nor \<open>undefined\<close>, for the data property names the handlers use
  (method names such as \<open>find\<close> are not data and are handled where they are called).
  A read on \<open>null\<close> or \<open>undefined\<close> throws: every use of \<open>field\<close> below is
  either behind the source's own truthiness test of the receiver or behind an explicit
  \<open>nullish\<close> test that returns the \<open>TypeError\<close>. \<open>opt_field\<close> is optional
  chaining \<open>v?.k\<close>.
\<close>

fun field :: "jsval \<Rightarrow> string \<Rightarrow> jsval" where
  "field (JObj kvs) k = obj_get kvs k"
| "field (JArr xs) k = (if k = ''length'' then JNum (int (length xs)) else Undefined)"
| "field (JStr s) k = (if k = ''length'' then JNum (int (length s)) else Undefined)"
| "field v k = Undefined"

definition opt_field :: "jsval \<Rightarrow> string \<Rightarrow> jsval" where
  "opt_field v k = (if nullish v then Undefined else field v k)"

text \<open>\<open>v[0]\<close> on a receiver that is neither \<open>null\<close> nor \<open>undefined\<close>.\<close>

fun index0 :: "jsval \<Rightarrow> jsval" where
  "index0 (JArr xs) = (case xs of [] \<Rightarrow> Undefined | x # _ \<Rightarrow> x)"
| "index0 (JStr s) = (case s of [] \<Rightarrow> Undefined | c # _ \<Rightarrow> JStr [c])"
| "index0 (JObj kvs) = obj_get kvs ''0''"
| "index0 v = Undefined"

text \<open>Strict equality \<open>a === b\<close> of values taken from different parsed documents:
  primitives compare by value, objects and arrays by identity.\<close>

fun strict_eq :: "jsval \<Rightarrow> jsval \<Rightarrow> bool" where
  "strict_eq Undefined Undefined = True"
| "strict_eq JNull JNull = True"
| "strict_eq (JBool a) (JBool b) = (a = b)"
| "strict_eq (JNum a) (JNum b) = (a = b)"
| "strict_eq (JStr a) (JStr b) = (a = b)"
| "strict_eq a b = False"

text \<open>Decimal rendering of numbers, and \<open>String(v)\<close> as template literals apply it.\<close>

definition digit_char :: "nat \<Rightarrow> char" where
  "digit_char d = ''0123456789'' ! (d mod 10)"

fun show_nat :: "nat \<Rightarrow> string" where
  "show_nat n = (if n < 10 then [digit_char n] else show_nat (n div 10) @ [digit_char (n mod 10)])"

definition show_int :: "int \<Rightarrow> string" where
  "show_int i = (if i < 0 then CHR ''-'' # show_nat (nat (- i)) else show_nat (nat i))"

fun join :: "string \<Rightarrow> string list \<Rightarrow> string" where
  "join sep [] = []"
| "join sep [x] = x"
| "join sep (x # y # ys) = x @ sep @ join sep (y # ys)"

fun to_string :: "jsval \<Rightarrow> string" where
  "to_string Undefined = ''undefined''"
| "to_string JNull = ''null''"
| "to_string (JBool b) = (if b then ''true'' else ''false'')"
| "to_string (JNum n) = show_int n"
| "to_string (JStr s) = s"
| "to_string (JArr xs) = join '','' (map (\<lambda>x. if nullish x then [] else to_string x) xs)"
| "to_string (JObj kvs) = ''[object Object]''"

section \<open>safeString\<close>

text \<open>
  The handlers define \<open>safeString\<close> locally, in three forms. The plain one, in
  get-player and get-skater-leaders:
  \<^verbatim>\<open>
  const safeString = (value: any, defaultValue: string = "N/A"): string => {
    if (value === null || value === undefined) return defaultValue;
    if (typeof value === 'string') return value;
    if (typeof value === 'number' || typeof value === 'boolean') return String(value);
    return defaultValue; // Return default for objects/arrays
  };
  \<close>
  The localized-wrapper one, in get-team-roster, get-player-landing and the
  stat-leaders, goalie-leaders, team-stats, roster-by-season, team-prospects, schedule
  and scores tools, adds before the last line
  \<^verbatim>\<open>if (typeof value === 'object' && value.default) return value.default;\<close>
  and so can return whatever the wrapper holds: its result is a value, not a string.
  The one of get-game-play-by-play has no test of the value's type:
  \<^verbatim>\<open>
  if (value === null || value === undefined) { return defaultValue; }
  if (typeof value === "object" && value.default) { return value.default; }
  return String(value);
  \<close>
  \<open>String\<close> of an object goes through the object's \<open>toString\<close>: the inherited one
  gives \<open>[object Object]\<close>, an own property of that name is not a function and the
  conversion throws; the elements of an array are converted the same way.
\<close>

datatype js_type = TUndefined | TObject | TBoolean | TNumber | TString

fun typeof :: "jsval \<Rightarrow> js_type" where
  "typeof Undefined = TUndefined"
| "typeof JNull = TObject"
| "typeof (JBool b) = TBoolean"
| "typeof (JNum n) = TNumber"
| "typeof (JStr s) = TString"
| "typeof (JArr xs) = TObject"
| "typeof (JObj kvs) = TObject"

definition safeString :: "jsval \<Rightarrow> string \<Rightarrow> string" where
  "safeString v defaultValue =
     (if v = JNull \<or> v = Undefined then defaultValue
      else if typeof v = TString then to_string v
      else if typeof v = TNumber \<or> typeof v = TBoolean then to_string v
      else defaultValue)"

definition safeString_localized :: "jsval \<Rightarrow> string \<Rightarrow> jsval" where
  "safeString_localized v defaultValue =
     (if v = JNull \<or> v = Undefined then JStr defaultValue
      else if typeof v = TString then v
      else if typeof v = TNumber \<or> typeof v = TBoolean then JStr (to_string v)
      else if typeof v = TObject \<and> truthy (field v ''default'') then field v ''default''
      else JStr defaultValue)"

fun collect :: "(js_error + string) list \<Rightarrow> js_error + string list" where
  "collect [] = Inr []"
| "collect (r # rs) =
     (case r of
        Inl e \<Rightarrow> Inl e
      | Inr s \<Rightarrow> (case collect rs of Inl e \<Rightarrow> Inl e | Inr ss \<Rightarrow> Inr (s # ss)))"

fun js_String :: "jsval \<Rightarrow> js_error + string" where
  "js_String Undefined = Inr ''undefined''"
| "js_String JNull = Inr ''null''"
| "js_String (JBool b) = Inr (if b then ''true'' else ''false'')"
| "js_String (JNum n) = Inr (show_int n)"
| "js_String (JStr s) = Inr s"
| "js_String (JArr xs) =
     (case collect (map (\<lambda>x. if nullish x then Inr [] else js_String x) xs) of
        Inl e \<Rightarrow> Inl e
      | Inr ss \<Rightarrow> Inr (join '','' ss))"
| "js_String (JObj kvs) =
     (if map_of kvs ''toString'' \<noteq> None then Inl TypeError else Inr ''[object Object]'')"

definition safeString_play_by_play :: "jsval \<Rightarrow> string \<Rightarrow> js_error + jsval" where
  "safeString_play_by_play v defaultValue =
     (if v = JNull \<or> v = Undefined then Inr (JStr defaultValue)
      else if typeof v = TObject \<and> truthy (field v ''default'') then Inr (field v ''default'')
      else case js_String v of Inl e \<Rightarrow> Inl e | Inr s \<Rightarrow> Inr (JStr s))"

section \<open>Strings\<close>

text \<open>\<open>toUpperCase\<close>, \<open>toLowerCase\<close> and \<open>trim\<close> on ASCII text.\<close>

definition to_upper_char :: "char \<Rightarrow> char" where
  "to_upper_char c =
     (case map_of (zip ''abcdefghijklmnopqrstuvwxyz'' ''ABCDEFGHIJKLMNOPQRSTUVWXYZ'') c of
        None \<Rightarrow> c | Some u \<Rightarrow> u)"

definition to_lower_char :: "char \<Rightarrow> char" where
  "to_lower_char c =
     (case map_of (zip ''ABCDEFGHIJKLMNOPQRSTUVWXYZ'' ''abcdefghijklmnopqrstuvwxyz'') c of
        None \<Rightarrow> c | Some l \<Rightarrow> l)"

definition toUpperCase :: "string \<Rightarrow> string" where
  "toUpperCase s = map to_upper_char s"

definition toLowerCase :: "string \<Rightarrow> string" where
  "toLowerCase s = map to_lower_char s"

definition is_space :: "char \<Rightarrow> bool" where
  "is_space c = (c \<in> set [CHR '' '', CHR 0x09, CHR 0x0A, CHR 0x0B, CHR 0x0C, CHR 0x0D])"

definition trim :: "string \<Rightarrow> string" where
  "trim s = rev (dropWhile is_space (rev (dropWhile is_space s)))"

section \<open>The fetch helper\<close>

text \<open>
  The transport is outside the program. A network answers a request from the URL and
  the requests made before it; an answer is a rejected fetch, or a status with a body
  that parses as JSON or does not. The world records the URLs requested and the errors
  \<open>makeNHLRequest\<close> writes to the console.
  \<^verbatim>\<open>
  try {
    const response = await fetch(url, { headers });
    if (!response.ok) { throw new Error(`HTTP error! status: ${response.status}`); }
    return (await response.json()) as T;
  } catch (error) {
    console.error("Error making NHL request:", error);
    return null;
  }
  \<close>
\<close>

datatype http_result = NetworkError | Response nat "jsval option"

datatype fetch_failure = FetchRejected | HttpError nat | MalformedBody

type_synonym network = "string list \<Rightarrow> string \<Rightarrow> http_result"

record world =
  requests :: "string list"
  errlog :: "fetch_failure list"

definition response_ok :: "nat \<Rightarrow> bool" where
  "response_ok status = (200 \<le> status \<and> status \<le> 299)"

fun fetch_json :: "http_result \<Rightarrow> fetch_failure + jsval" where
  "fetch_json NetworkError = Inl FetchRejected"
| "fetch_json (Response status body) =
     (if \<not> response_ok status then Inl (HttpError status)
      else case body of None \<Rightarrow> Inl MalformedBody | Some v \<Rightarrow> Inr v)"

definition makeNHLRequest :: "network \<Rightarrow> string \<Rightarrow> world \<Rightarrow> jsval \<times> world" where
  "makeNHLRequest net url w =
     (let w1 = w\<lparr>requests := requests w @ [url]\<rparr>
      in case fetch_json (net (requests w) url) of
           Inl e \<Rightarrow> (JNull, w1\<lparr>errlog := errlog w1 @ [e]\<rparr>)
         | Inr v \<Rightarrow> (v, w1))"

definition NHL_WEB_API_BASE :: string where
  "NHL_WEB_API_BASE = ''https://api-web.nhle.com/v1''"

definition NHL_STATS_API_BASE :: string where
  "NHL_STATS_API_BASE = ''https://api.nhle.com/stats/rest/en''"

section \<open>Arrays\<close>

text \<open>
  \<open>xs.find(p)\<close>: the first element \<open>p\<close> accepts, \<open>undefined\<close> when there is none;
  a callback that throws ends the search. On a receiver that is not an array there is
  no \<open>find\<close> to call. \<open>for (const x of v)\<close> walks an array or the characters of a
  string and throws on anything else.
\<close>

fun find_first :: "(jsval \<Rightarrow> js_error + bool) \<Rightarrow> jsval list \<Rightarrow> js_error + jsval" where
  "find_first p [] = Inr Undefined"
| "find_first p (t # ts) =
     (case p t of
        Inl e \<Rightarrow> Inl e
      | Inr b \<Rightarrow> if b then Inr t else find_first p ts)"

definition js_find :: "(jsval \<Rightarrow> js_error + bool) \<Rightarrow> jsval \<Rightarrow> js_error + jsval" where
  "js_find p v = (case v of JArr ts \<Rightarrow> find_first p ts | _ \<Rightarrow> Inl TypeError)"

definition js_iterate :: "jsval \<Rightarrow> js_error + jsval list" where
  "js_iterate v =
     (case v of
        JArr xs \<Rightarrow> Inr xs
      | JStr s \<Rightarrow> Inr (map (\<lambda>c. JStr [c]) s)
      | _ \<Rightarrow> Inl TypeError)"

text \<open>
  \<open>v > 0\<close>. A string operand is converted by JavaScript's string-to-number
  grammar, which is taken as the parameter \<open>str_gt0\<close> (whether the string denotes a
  number above zero); an array is converted through its string, an object is not a
  number.
\<close>

fun js_gt0 :: "(string \<Rightarrow> bool) \<Rightarrow> jsval \<Rightarrow> bool" where
  "js_gt0 str_gt0 Undefined = False"
| "js_gt0 str_gt0 JNull = False"
| "js_gt0 str_gt0 (JBool b) = b"
| "js_gt0 str_gt0 (JNum n) = (0 < n)"
| "js_gt0 str_gt0 (JStr s) = str_gt0 s"
| "js_gt0 str_gt0 (JArr xs) = str_gt0 (to_string (JArr xs))"
| "js_gt0 str_gt0 (JObj kvs) = False"

section \<open>Objects\<close>

text \<open>
  \<open>Object.entries\<close> lists each key once; \<open>Object.fromEntries\<close> and the spread
  \<open>{...a, ...b}\<close> write entries in order, a later write of a key replacing the
  earlier one.
\<close>

definition entries :: "obj \<Rightarrow> (string \<times> jsval) list" where
  "entries ob = AList.clearjunk ob"

definition assign :: "obj \<Rightarrow> (string \<times> jsval) list \<Rightarrow> obj" where
  "assign ob es = fold (\<lambda>(k, v). AList.update k v) es ob"

definition fromEntries :: "(string \<times> jsval) list \<Rightarrow> obj" where
  "fromEntries es = assign [] es"

definition spread :: "obj \<Rightarrow> obj \<Rightarrow> obj" where
  "spread a b = assign a (entries b)"

section \<open>get-team\<close>

text \<open>
  An endpoint pairs a name and a URL with \<open>parseTeam\<close>. Every parser starts with
  \<open>Object.keys(data)\<close>, which throws on \<open>null\<close> and \<open>undefined\<close>; a parser that
  throws is \<open>Inl\<close>. A partial record is the object the parser returns.
\<close>

record endpoint =
  ep_name :: string
  ep_url :: string
  parseTeam :: "jsval \<Rightarrow> js_error + obj"

definition parse_roster :: "string \<Rightarrow> jsval \<Rightarrow> js_error + obj" where
  "parse_roster teamCode data =
     (if nullish data then Inl TypeError
      else Inr
        [(''teamId'', field data ''teamId''),
         (''name'', js_or (field data ''name'') (field data ''fullName'')),
         (''abbrev'', JStr teamCode),
         (''locationName'', field data ''locationName''),
         (''teamName'', field data ''teamName''),
         (''division'', field data ''division''),
         (''conference'', field data ''conference'')])"

definition parse_club_stats :: "string \<Rightarrow> jsval \<Rightarrow> js_error + obj" where
  "parse_club_stats teamCode data =
     (if nullish data then Inl TypeError
      else Inr
        [(''teamId'', js_or (field data ''teamId'') (field data ''id'')),
         (''name'', js_or (field data ''teamName'') (field data ''name'')),
         (''abbrev'', JStr teamCode),
         (''locationName'', field data ''locationName''),
         (''teamName'', js_or (field data ''teamName'') (field data ''name'')),
         (''record'',
            if truthy (js_and (field data ''teamStats'') (index0 (field data ''teamStats'')))
            then (let stats0 = index0 (field data ''teamStats'')
                  in JObj
                    [(''wins'', js_or (field stats0 ''wins'') (JNum 0)),
                     (''losses'', js_or (field stats0 ''losses'') (JNum 0)),
                     (''otLosses'', js_or (field stats0 ''otLosses'') (JNum 0)),
                     (''points'', js_or (field stats0 ''points'') (JNum 0))])
            else Undefined)])"

definition team_info_match :: "string \<Rightarrow> jsval \<Rightarrow> js_error + bool" where
  "team_info_match teamCode t =
     (if nullish t then Inl TypeError
      else Inr (strict_eq (field t ''triCode'') (JStr teamCode)
              \<or> strict_eq (field t ''abbrev'') (JStr teamCode)
              \<or> strict_eq (opt_field (field t ''teamAbbrev'') ''default'') (JStr teamCode)))"

definition parse_team_info :: "string \<Rightarrow> jsval \<Rightarrow> js_error + obj" where
  "parse_team_info teamCode data =
     (if nullish data then Inl TypeError
      else case js_find (team_info_match teamCode) (js_or (field data ''data'') (JArr [])) of
        Inl e \<Rightarrow> Inl e
      | Inr matchingTeam \<Rightarrow>
          if \<not> truthy matchingTeam then Inr []
          else Inr
            [(''teamId'', js_or (field matchingTeam ''id'') (field matchingTeam ''teamId'')),
             (''name'', js_or (field matchingTeam ''name'') (field matchingTeam ''fullName'')),
             (''abbrev'', JStr teamCode),
             (''locationName'', field matchingTeam ''locationName''),
             (''teamName'', field matchingTeam ''teamName''),
             (''division'', JObj
                [(''name'', js_or (field matchingTeam ''divisionName'')
                    (js_and (field matchingTeam ''division'')
                       (field (field matchingTeam ''division'') ''name''))),
                 (''shortName'', js_or (field matchingTeam ''divisionAbbrev'')
                    (js_and (field matchingTeam ''division'')
                       (field (field matchingTeam ''division'') ''nameShort'')))]),
             (''conference'', JObj
                [(''name'', js_or (field matchingTeam ''conferenceName'')
                    (js_and (field matchingTeam ''conference'')
                       (field (field matchingTeam ''conference'') ''name''))),
                 (''shortName'', js_or (field matchingTeam ''conferenceAbbrev'')
                    (js_and (field matchingTeam ''conference'')
                       (field (field matchingTeam ''conference'') ''nameShort'')))])])"

definition standings_match :: "string \<Rightarrow> jsval \<Rightarrow> js_error + bool" where
  "standings_match teamCode t =
     (if nullish t then Inl TypeError
      else Inr (strict_eq (opt_field (field t ''teamAbbrev'') ''default'') (JStr teamCode)
              \<or> strict_eq (field t ''abbrev'') (JStr teamCode)
              \<or> strict_eq (field t ''triCode'') (JStr teamCode)))"

text \<open>The \<open>for (const div of divisions)\<close> loop: the first division holding the team.\<close>

fun find_division :: "string \<Rightarrow> jsval list \<Rightarrow> js_error + (jsval \<times> jsval) option" where
  "find_division teamCode [] = Inr None"
| "find_division teamCode (div0 # rest) =
     (if nullish div0 then Inl TypeError
      else case js_find (standings_match teamCode)
                  (js_or (js_or (field div0 ''teamRecords'') (field div0 ''teams'')) (JArr [])) of
        Inl e \<Rightarrow> Inl e
      | Inr team \<Rightarrow>
          if truthy team then Inr (Some (div0, team))
          else find_division teamCode rest)"

definition standings_divisions :: "jsval \<Rightarrow> jsval" where
  "standings_divisions data =
     js_or (js_or (js_or (opt_field (field data ''standings'') ''divisionStandings'')
                     (field data ''divisionStandings''))
              (field data ''records''))
       (JArr [])"

definition parse_standings :: "string \<Rightarrow> jsval \<Rightarrow> js_error + obj" where
  "parse_standings teamCode data =
     (if nullish data then Inl TypeError
      else case js_iterate (standings_divisions data) of
        Inl e \<Rightarrow> Inl e
      | Inr divisions \<Rightarrow>
         (case find_division teamCode divisions of
            Inl e \<Rightarrow> Inl e
          | Inr None \<Rightarrow> Inr []
          | Inr (Some (division, foundTeam)) \<Rightarrow> Inr
              [(''teamId'', js_or (field foundTeam ''teamId'') (field foundTeam ''id'')),
               (''name'', js_or (js_and (field foundTeam ''teamName'')
                                   (field (field foundTeam ''teamName'') ''default''))
                                (field foundTeam ''name'')),
               (''abbrev'', JStr teamCode),
               (''division'', JObj
                  [(''name'', js_or (field division ''divisionName'') (JStr ''Unknown Division'')),
                   (''shortName'', js_or (field division ''divisionAbbrev'') (JStr []))]),
               (''conference'', JObj
                  [(''name'',
                      if strict_eq (field division ''conferenceAbbrev'') (JStr ''E'')
                      then JStr ''Eastern''
                      else if strict_eq (field division ''conferenceAbbrev'') (JStr ''W'')
                      then JStr ''Western''
                      else js_or (field division ''conferenceName'') (JStr ''Unknown'')),
                   (''shortName'', js_or (field division ''conferenceAbbrev'') (JStr []))]),
               (''record'', JObj
                  [(''wins'', js_or (field foundTeam ''wins'') (JNum 0)),
                   (''losses'', js_or (field foundTeam ''losses'') (JNum 0)),
                   (''otLosses'', js_or (field foundTeam ''otLosses'') (JNum 0)),
                   (''points'', js_or (field foundTeam ''points'') (JNum 0))])]))"

definition endpoints :: "string \<Rightarrow> endpoint list" where
  "endpoints teamCode =
     [\<lparr>ep_name = ''Roster API'',
       ep_url = NHL_WEB_API_BASE @ ''/roster/'' @ teamCode @ ''/current'',
       parseTeam = parse_roster teamCode\<rparr>,
      \<lparr>ep_name = ''Club Stats API'',
       ep_url = NHL_WEB_API_BASE @ ''/club-stats/'' @ teamCode @ ''/now'',
       parseTeam = parse_club_stats teamCode\<rparr>,
      \<lparr>ep_name = ''Team Info API'',
       ep_url = NHL_STATS_API_BASE @ ''/team'',
       parseTeam = parse_team_info teamCode\<rparr>,
      \<lparr>ep_name = ''Standings API'',
       ep_url = NHL_WEB_API_BASE @ ''/standings/now'',
       parseTeam = parse_standings teamCode\<rparr>]"

text \<open>
  The merge step and the completeness test of the endpoint loop:
  \<^verbatim>\<open>
  teamData = { ...teamData,
    ...Object.fromEntries(
      Object.entries(parsedTeam).filter(([_, v]) => v !== undefined && v !== null)) };
  if (teamData.name && teamData.division && teamData.conference) { break; }
  \<close>
\<close>

definition merge_team :: "obj \<Rightarrow> obj \<Rightarrow> obj" where
  "merge_team teamData parsedTeam =
     spread teamData
       (fromEntries (filter (\<lambda>(k, v). v \<noteq> Undefined \<and> v \<noteq> JNull) (entries parsedTeam)))"

definition complete :: "obj \<Rightarrow> bool" where
  "complete teamData =
     (truthy (obj_get teamData ''name'') \<and> truthy (obj_get teamData ''division'')
      \<and> truthy (obj_get teamData ''conference''))"

text \<open>
  The loop state is the accumulated \<open>teamData\<close>, the \<open>errorMessages\<close> (the endpoint
  named in each message and the error caught) and the world. The \<open>catch\<close> of the
  loop body is reached by a parser that throws; \<open>makeNHLRequest\<close> does not throw.
\<close>

type_synonym team_state = "obj \<times> (string \<times> js_error) list \<times> world"

fun try_endpoints :: "network \<Rightarrow> endpoint list \<Rightarrow> team_state \<Rightarrow> team_state" where
  "try_endpoints net [] st = st"
| "try_endpoints net (ep # eps) (teamData, errorMessages, w) =
     (case makeNHLRequest net (ep_url ep) w of
        (data, w1) \<Rightarrow>
          if truthy data then
            (case parseTeam ep data of
               Inl e \<Rightarrow>
                 try_endpoints net eps (teamData, errorMessages @ [(ep_name ep, e)], w1)
             | Inr parsedTeam \<Rightarrow>
                 if complete (merge_team teamData parsedTeam)
                 then (merge_team teamData parsedTeam, errorMessages, w1)
                 else try_endpoints net eps (merge_team teamData parsedTeam, errorMessages, w1))
          else try_endpoints net eps (teamData, errorMessages, w1))"

text \<open>
  After the loop the handler gives up when \<open>teamData.name\<close> is falsy, else fetches the
  club statistics and renders. \<open>stats.wins\<close> is read without a test of \<open>stats\<close>, so a
  first element that is \<open>null\<close> or missing throws out of the handler: the handler's
  result is \<open>Inl\<close> then. The lines are joined by the two characters of \<open>"\\n"\<close>.
  \<^verbatim>\<open>
  const teamFullName = teamData.name ||
                      (teamData.locationName && teamData.teamName) ?
                      `${teamData.locationName} ${teamData.teamName}` :
                      `${teamCode} (name unavailable)`;
  \<close>
  parses as \<open>(a || (b && c)) ? x : y\<close>.
\<close>

definition line_sep :: string where
  "line_sep = [CHR 0x5C, CHR ''n'']"

definition failure_text :: "string \<Rightarrow> string" where
  "failure_text teamCode =
     ''Failed to retrieve data for team: '' @ teamCode
     @ ''. The team code may be invalid or NHL API might be unavailable.''"

definition teamFullName :: "string \<Rightarrow> obj \<Rightarrow> string" where
  "teamFullName teamCode teamData =
     (if truthy (js_or (obj_get teamData ''name'')
                   (js_and (obj_get teamData ''locationName'') (obj_get teamData ''teamName'')))
      then to_string (obj_get teamData ''locationName'') @ '' ''
           @ to_string (obj_get teamData ''teamName'')
      else teamCode @ '' (name unavailable)'')"

definition teamInfo :: "string \<Rightarrow> obj \<Rightarrow> string list" where
  "teamInfo teamCode teamData =
     [''Team: '' @ teamFullName teamCode teamData,
      ''Abbreviation: '' @ teamCode,
      ''Division: '' @ to_string (js_or (opt_field (obj_get teamData ''division'') ''name'')
                                     (JStr ''Not available'')),
      ''Conference: '' @ to_string (js_or (opt_field (obj_get teamData ''conference'') ''name'')
                                       (JStr ''Not available''))]"

definition stats_lines :: "jsval \<Rightarrow> string list" where
  "stats_lines stats =
     [''Stats:'',
      ''  Record: '' @ to_string (field stats ''wins'') @ ''-''
        @ to_string (field stats ''losses'') @ ''-'' @ to_string (field stats ''otLosses''),
      ''  Points: '' @ to_string (field stats ''points''),
      ''  Goals For: '' @ to_string (field stats ''goalsFor''),
      ''  Goals Against: '' @ to_string (field stats ''goalsAgainst''),
      ''  Home Record: '' @ to_string (js_or (js_or (field stats ''homeRecord'')
                                               (field stats ''homeRecordL10'')) (JStr ''N/A'')),
      ''  Away Record: '' @ to_string (js_or (js_or (field stats ''awayRecord'')
                                               (field stats ''awayRecordL10'')) (JStr ''N/A''))]"

definition record_lines :: "jsval \<Rightarrow> string list" where
  "record_lines rec =
     [''Stats:'',
      ''  Record: '' @ to_string (field rec ''wins'') @ ''-''
        @ to_string (field rec ''losses'') @ ''-'' @ to_string (field rec ''otLosses''),
      ''  Points: '' @ to_string (field rec ''points'')]"

definition has_team_stats :: "(string \<Rightarrow> bool) \<Rightarrow> jsval \<Rightarrow> bool" where
  "has_team_stats str_gt0 statsData =
     (truthy statsData \<and> truthy (field statsData ''teamStats'')
      \<and> js_gt0 str_gt0 (field (field statsData ''teamStats'') ''length''))"

definition render_team ::
  "(string \<Rightarrow> bool) \<Rightarrow> string \<Rightarrow> obj \<Rightarrow> jsval \<Rightarrow> js_error + string" where
  "render_team str_gt0 teamCode teamData statsData =
     (if has_team_stats str_gt0 statsData then
        (let stats = index0 (field statsData ''teamStats'')
         in if nullish stats then Inl TypeError
            else Inr (join line_sep (teamInfo teamCode teamData @ stats_lines stats)))
      else if truthy (obj_get teamData ''record'') then
        Inr (join line_sep (teamInfo teamCode teamData
                            @ record_lines (obj_get teamData ''record'')))
      else Inr (join line_sep (teamInfo teamCode teamData)))"

definition stats_url :: "string \<Rightarrow> string" where
  "stats_url teamCode = NHL_WEB_API_BASE @ ''/club-stats/'' @ teamCode @ ''/now''"

definition get_team ::
  "(string \<Rightarrow> bool) \<Rightarrow> network \<Rightarrow> string \<Rightarrow> world \<Rightarrow> (js_error + string) \<times> world" where
  "get_team str_gt0 net teamAbbrev w0 =
     (let teamCode = trim (toUpperCase teamAbbrev)
      in case try_endpoints net (endpoints teamCode) ([], [], w0) of
        (teamData, errorMessages, w1) \<Rightarrow>
          if \<not> truthy (obj_get teamData ''name'') then (Inr (failure_text teamCode), w1)
          else case makeNHLRequest net (stats_url teamCode) w1 of
            (statsData, w2) \<Rightarrow> (render_team str_gt0 teamCode teamData statsData, w2))"

section \<open>get-skater-leaders\<close>

text \<open>
  Three sources, each a URL with an \<open>extract\<close> function (\<open>extractor\<close> here) that returns \<open>null\<close> or an
  object with \<open>leaders\<close>, \<open>categoryLabel\<close> and \<open>season\<close>. In the first source
  \<open>c.categoryName?.toLowerCase()\<close> is \<open>undefined\<close> for a missing name, the lower-cased
  text for a string, and a call of something that is not a function otherwise.
\<close>

record leader_endpoint =
  le_url :: string
  le_format :: string
  extractor :: "jsval \<Rightarrow> js_error + jsval"

definition lower_opt :: "jsval \<Rightarrow> js_error + jsval" where
  "lower_opt v =
     (if nullish v then Inr Undefined
      else case v of JStr s \<Rightarrow> Inr (JStr (toLowerCase s)) | _ \<Rightarrow> Inl TypeError)"

definition category_match :: "string \<Rightarrow> jsval \<Rightarrow> js_error + bool" where
  "category_match category c =
     (if nullish c then Inl TypeError
      else case lower_opt (field c ''categoryName'') of
        Inl e \<Rightarrow> Inl e
      | Inr a \<Rightarrow>
          if strict_eq a (JStr (toLowerCase category)) then Inr True
          else case lower_opt (field c ''categoryLabel'') of
            Inl e \<Rightarrow> Inl e
          | Inr b \<Rightarrow> Inr (strict_eq b (JStr (toLowerCase category))))"

definition extract_web :: "string \<Rightarrow> jsval \<Rightarrow> js_error + jsval" where
  "extract_web category data =
     (if \<not> truthy data \<or> \<not> truthy (field data ''categories'')
         \<or> strict_eq (field (field data ''categories'') ''length'') (JNum 0)
      then Inr JNull
      else case js_find (category_match category) (field data ''categories'') of
        Inl e \<Rightarrow> Inl e
      | Inr found \<Rightarrow>
         (let categoryData = js_or found (index0 (field data ''categories''))
          in if nullish categoryData then Inl TypeError
             else Inr (JObj
               [(''leaders'', js_or (field categoryData ''leaders'') (JArr [])),
                (''categoryLabel'', js_or (field categoryData ''categoryLabel'') (JStr category)),
                (''season'', js_or (field data ''season'') (JStr ''current''))])))"

definition extract_stats_direct :: "string \<Rightarrow> jsval \<Rightarrow> js_error + jsval" where
  "extract_stats_direct category data =
     (if \<not> truthy data \<or> \<not> truthy (field data ''data'') then Inr JNull
      else Inr (JObj
        [(''leaders'', field data ''data''),
         (''categoryLabel'', js_or (field data ''description'') (JStr category)),
         (''season'', js_or (field data ''season'') (JStr ''current''))]))"

definition extract_stats_filtered :: "string \<Rightarrow> jsval \<Rightarrow> js_error + jsval" where
  "extract_stats_filtered category data =
     (if \<not> truthy data \<or> \<not> truthy (field data ''data'') then Inr JNull
      else Inr (JObj
        [(''leaders'', field data ''data''),
         (''categoryLabel'', JStr category),
         (''season'', JStr ''2024-2025'')]))"

definition leader_urls :: "string \<Rightarrow> int \<Rightarrow> leader_endpoint list" where
  "leader_urls category limit =
     [\<lparr>le_url = NHL_WEB_API_BASE @ ''/skater-stats-leaders/current?categories='' @ category
                 @ ''&limit='' @ show_int limit,
       le_format = ''web'',
       extractor = extract_web category\<rparr>,
      \<lparr>le_url = NHL_STATS_API_BASE @ ''/leaders/skaters/'' @ category
                 @ ''?limit='' @ show_int limit,
       le_format = ''stats-direct'',
       extractor = extract_stats_direct category\<rparr>,
      \<lparr>le_url = NHL_STATS_API_BASE @ ''/skater/summary?limit='' @ show_int limit
                 @ ''&sort='' @ category @ ''&cayenneExp=seasonId=20242025'',
       le_format = ''stats-filtered'',
       extractor = extract_stats_filtered category\<rparr>]"

text \<open>
  \<^verbatim>\<open>if (extracted && extracted.leaders && extracted.leaders.length > 0) { result = extracted; break; }\<close>
\<close>

definition has_leaders :: "(string \<Rightarrow> bool) \<Rightarrow> jsval \<Rightarrow> bool" where
  "has_leaders str_gt0 extracted =
     (truthy extracted \<and> truthy (field extracted ''leaders'')
      \<and> js_gt0 str_gt0 (field (field extracted ''leaders'') ''length''))"

type_synonym leader_state = "jsval \<times> (string \<times> js_error) list \<times> world"

fun try_leader_urls ::
  "(string \<Rightarrow> bool) \<Rightarrow> network \<Rightarrow> leader_endpoint list \<Rightarrow> leader_state \<Rightarrow> leader_state" where
  "try_leader_urls str_gt0 net [] st = st"
| "try_leader_urls str_gt0 net (ep # eps) (result, errors, w) =
     (case makeNHLRequest net (le_url ep) w of
        (data, w1) \<Rightarrow>
          if \<not> truthy data then try_leader_urls str_gt0 net eps (result, errors, w1)
          else case extractor ep data of
            Inl e \<Rightarrow> try_leader_urls str_gt0 net eps (result, errors @ [(le_format ep, e)], w1)
          | Inr extracted \<Rightarrow>
              if has_leaders str_gt0 extracted then (extracted, errors, w1)
              else try_leader_urls str_gt0 net eps (result, errors, w1))"

definition resolve_leaders ::
  "(string \<Rightarrow> bool) \<Rightarrow> network \<Rightarrow> string \<Rightarrow> int \<Rightarrow> world \<Rightarrow> leader_state" where
  "resolve_leaders str_gt0 net category limit w0 =
     try_leader_urls str_gt0 net (leader_urls category limit) (JNull, [], w0)"

text \<open>
  For the statement of the loop's result, not code of the handler: what one source
  contributes when it is asked after the requests \<open>h\<close>. It is the source's extraction
  when the fetch gave a truthy document, the extraction did not throw and the loop's
  test accepts it; nothing otherwise.
\<close>

definition source_extraction ::
  "(string \<Rightarrow> bool) \<Rightarrow> network \<Rightarrow> leader_endpoint \<Rightarrow> string list \<Rightarrow> jsval option" where
  "source_extraction str_gt0 net ep h =
     (case fetch_json (net h (le_url ep)) of
        Inl e \<Rightarrow> None
      | Inr data \<Rightarrow>
          if \<not> truthy data then None
          else case extractor ep data of
            Inl e \<Rightarrow> None
          | Inr extracted \<Rightarrow> if has_leaders str_gt0 extracted then Some extracted else None)"

section \<open>get-player\<close>

text \<open>
  The resolution part of the handler: the endpoint loop, the game-log fetch and the
  team lookup. The rendering of the player's lines that follows is not modelled.
  \<open>parsePlayer\<close> of the landing endpoint is the identity; that of the stats endpoint
  reads \<open>data.data[0]\<close>.
\<close>

record player_endpoint =
  pe_name :: string
  pe_url :: string
  parsePlayer :: "jsval \<Rightarrow> js_error + jsval"

definition parse_player_landing :: "jsval \<Rightarrow> js_error + jsval" where
  "parse_player_landing data = Inr data"

definition parse_player_stats :: "jsval \<Rightarrow> js_error + jsval" where
  "parse_player_stats data =
     (if \<not> truthy data \<or> \<not> truthy (field data ''data'')
         \<or> strict_eq (field (field data ''data'') ''length'') (JNum 0)
      then Inr (JObj [])
      else (let player = index0 (field data ''data'')
            in if nullish player then Inl TypeError
               else Inr (JObj
                 [(''playerId'', js_or (field player ''playerId'') (field player ''id'')),
                  (''firstName'', field player ''firstName''),
                  (''lastName'', field player ''lastName''),
                  (''fullName'', JStr (to_string (field player ''firstName'') @ '' ''
                                       @ to_string (field player ''lastName''))),
                  (''position'', field player ''positionCode''),
                  (''sweaterNumber'', field player ''sweaterNumber''),
                  (''birthDate'', field player ''birthDate''),
                  (''birthCity'', field player ''birthCity''),
                  (''birthCountry'', field player ''birthCountry''),
                  (''height'', field player ''height''),
                  (''weight'', field player ''weight''),
                  (''teamId'', field player ''teamId''),
                  (''shootsCatches'', field player ''shootsCatches''),
                  (''rookie'', field player ''rookie'')])))"

definition player_endpoints :: "int \<Rightarrow> player_endpoint list" where
  "player_endpoints playerId =
     [\<lparr>pe_name = ''Player Landing API'',
       pe_url = NHL_WEB_API_BASE @ ''/player/'' @ show_int playerId @ ''/landing'',
       parsePlayer = parse_player_landing\<rparr>,
      \<lparr>pe_name = ''Stats API Player Info'',
       pe_url = NHL_STATS_API_BASE @ ''/player/'' @ show_int playerId,
       parsePlayer = parse_player_stats\<rparr>]"

definition has_player_name :: "jsval \<Rightarrow> bool" where
  "has_player_name parsedPlayer =
     (truthy parsedPlayer
      \<and> (truthy (field parsedPlayer ''fullName'')
         \<or> (truthy (field parsedPlayer ''firstName'') \<and> truthy (field parsedPlayer ''lastName''))))"

type_synonym player_state = "jsval \<times> (string \<times> js_error) list \<times> world"

fun try_player_endpoints ::
  "network \<Rightarrow> player_endpoint list \<Rightarrow> player_state \<Rightarrow> player_state" where
  "try_player_endpoints net [] st = st"
| "try_player_endpoints net (ep # eps) (playerData, errorMessages, w) =
     (case makeNHLRequest net (pe_url ep) w of
        (data, w1) \<Rightarrow>
          if truthy data then
            (case parsePlayer ep data of
               Inl e \<Rightarrow>
                 try_player_endpoints net eps (playerData, errorMessages @ [(pe_name ep, e)], w1)
             | Inr parsedPlayer \<Rightarrow>
                 if has_player_name parsedPlayer then (parsedPlayer, errorMessages, w1)
                 else try_player_endpoints net eps (playerData, errorMessages, w1))
          else try_player_endpoints net eps (playerData, errorMessages, w1))"

text \<open>
  The team lookup keeps \<open>teamName\<close> and \<open>teamAbbrev\<close>. It runs inside one \<open>try\<close>: an
  exception ends the lookup and leaves the two variables as they were assigned so far,
  so each step returns the variables with the error, if any. In the standings shape
  the inner \<open>break\<close> leaves the loop over one division's teams only.
\<close>

type_synonym team_vars = "jsval \<times> jsval"

definition unknown_team :: jsval where
  "unknown_team = JStr ''Unknown Team''"

fun first_team_match :: "jsval \<Rightarrow> jsval list \<Rightarrow> js_error + jsval option" where
  "first_team_match teamId [] = Inr None"
| "first_team_match teamId (team # rest) =
     (if nullish team then Inl TypeError
      else if strict_eq (field team ''teamId'') teamId then Inr (Some team)
      else first_team_match teamId rest)"

fun scan_divisions :: "jsval \<Rightarrow> jsval list \<Rightarrow> team_vars \<Rightarrow> team_vars \<times> js_error option" where
  "scan_divisions teamId [] vars = (vars, None)"
| "scan_divisions teamId (division # rest) vars =
     (if nullish division then (vars, Some TypeError)
      else case js_iterate (js_or (field division ''teamRecords'') (JArr [])) of
        Inl e \<Rightarrow> (vars, Some e)
      | Inr teams \<Rightarrow>
         (case first_team_match teamId teams of
            Inl e \<Rightarrow> (vars, Some e)
          | Inr None \<Rightarrow> scan_divisions teamId rest vars
          | Inr (Some team) \<Rightarrow>
              scan_divisions teamId rest
                (js_or (opt_field (field team ''teamName'') ''default'') unknown_team,
                 js_or (opt_field (field team ''teamAbbrev'') ''default'') (JStr []))))"

definition team_id_match :: "jsval \<Rightarrow> jsval \<Rightarrow> js_error + bool" where
  "team_id_match teamId t =
     (if nullish t then Inl TypeError else Inr (strict_eq (field t ''id'') teamId))"

definition lookup_in :: "jsval \<Rightarrow> jsval \<Rightarrow> team_vars \<Rightarrow> team_vars \<times> js_error option" where
  "lookup_in teamsData teamId vars =
     (if truthy (opt_field (field teamsData ''standings'') ''divisionStandings'') then
        (case js_iterate (field (field teamsData ''standings'') ''divisionStandings'') of
           Inl e \<Rightarrow> (vars, Some e)
         | Inr divisions \<Rightarrow> scan_divisions teamId divisions vars)
      else if truthy (field teamsData ''data'') then
        (case js_find (team_id_match teamId) (field teamsData ''data'') of
           Inl e \<Rightarrow> (vars, Some e)
         | Inr team \<Rightarrow>
             if truthy team then
               ((js_or (js_or (field team ''name'') (field team ''fullName'')) unknown_team,
                 js_or (js_or (field team ''triCode'') (field team ''abbrev'')) (JStr [])), None)
             else (vars, None))
      else (vars, None))"

fun lookup_team_urls ::
  "network \<Rightarrow> jsval \<Rightarrow> string list \<Rightarrow> team_vars \<times> world
     \<Rightarrow> (team_vars \<times> world) \<times> js_error option" where
  "lookup_team_urls net teamId [] st = (st, None)"
| "lookup_team_urls net teamId (url # urls) (vars, w) =
     (case makeNHLRequest net url w of
        (teamsData, w1) \<Rightarrow>
          if \<not> truthy teamsData then lookup_team_urls net teamId urls (vars, w1)
          else case lookup_in teamsData teamId vars of
            (vars1, Some e) \<Rightarrow> ((vars1, w1), Some e)
          | (vars1, None) \<Rightarrow>
              if \<not> strict_eq (fst vars1) unknown_team then ((vars1, w1), None)
              else lookup_team_urls net teamId urls (vars1, w1))"

definition teamUrls :: "string list" where
  "teamUrls = [NHL_WEB_API_BASE @ ''/standings/now'', NHL_STATS_API_BASE @ ''/team'']"

definition roster_url :: "jsval \<Rightarrow> string" where
  "roster_url teamAbbrev = NHL_WEB_API_BASE @ ''/roster/'' @ to_string teamAbbrev @ ''/current''"

definition roster_fallback :: "network \<Rightarrow> team_vars \<times> world \<Rightarrow> team_vars \<times> world" where
  "roster_fallback net st =
     (case st of
        ((teamName, teamAbbrev), w) \<Rightarrow>
          if truthy teamAbbrev \<and> strict_eq teamName unknown_team then
            (case makeNHLRequest net (roster_url teamAbbrev) w of
               (teamData, w1) \<Rightarrow>
                 if truthy teamData then
                   ((if truthy (js_or (field teamData ''name'')
                                  (js_and (field teamData ''locationName'')
                                          (field teamData ''teamName'')))
                     then JStr (to_string (field teamData ''locationName'') @ '' ''
                                @ to_string (field teamData ''teamName''))
                     else teamAbbrev, teamAbbrev), w1)
                 else ((teamName, teamAbbrev), w1))
          else st)"

definition team_lookup :: "network \<Rightarrow> jsval \<Rightarrow> world \<Rightarrow> team_vars \<times> world" where
  "team_lookup net teamId w =
     (case lookup_team_urls net teamId teamUrls ((unknown_team, JStr []), w) of
        (st, Some e) \<Rightarrow> st
      | (st, None) \<Rightarrow> roster_fallback net st)"

datatype player_resolution =
    PlayerNotFound string
  | PlayerResolved jsval jsval jsval

definition player_failure_text :: "int \<Rightarrow> string" where
  "player_failure_text playerId =
     ''Failed to retrieve data for player ID: '' @ show_int playerId
     @ ''. The player ID may be invalid or NHL API might be unavailable.''"

definition game_log_url :: "int \<Rightarrow> string" where
  "game_log_url playerId = NHL_WEB_API_BASE @ ''/player/'' @ show_int playerId @ ''/game-log/now''"

definition resolve_player :: "network \<Rightarrow> int \<Rightarrow> world \<Rightarrow> player_resolution \<times> world" where
  "resolve_player net playerId w0 =
     (case try_player_endpoints net (player_endpoints playerId) (JNull, [], w0) of
        (playerData, errorMessages, w1) \<Rightarrow>
          if \<not> truthy playerData then (PlayerNotFound (player_failure_text playerId), w1)
          else case makeNHLRequest net (game_log_url playerId) w1 of
            (statsData, w2) \<Rightarrow>
              if truthy (field playerData ''teamId'') then
                (case team_lookup net (field playerData ''teamId'') w2 of
                   ((teamName, teamAbbrev), w3) \<Rightarrow>
                     (PlayerResolved playerData statsData teamName, w3))
              else (PlayerResolved playerData statsData unknown_team, w2))"

section \<open>get-current-standings\<close>

text \<open>
  The handler reads a response typed \<open>StandingsResponse\<close>, so its rows are records.
  The record holds the fields the handler reads; whatever else a row carries upstream
  (\<open>gamesPlayed\<close> among them, which the interface does not declare) lives in the
  record's extension. \<open>x || d\<close> on an optional string or number takes \<open>d\<close> for a
  missing value, the empty string and \<open>0\<close>.
\<close>

record localized =
  default_text :: string

record standings_team =
  divisionName :: "string option"
  teamName :: "localized option"
  wins :: "int option"
  losses :: "int option"
  otLosses :: "int option"
  points :: "int option"
  goalsFor :: "int option"
  goalAgainst :: "int option"

record 't standings_response =
  standings :: "'t list option"

definition or_str :: "string option \<Rightarrow> string \<Rightarrow> string" where
  "or_str x d = (case x of None \<Rightarrow> d | Some s \<Rightarrow> if s \<noteq> [] then s else d)"

definition or_zero :: "int option \<Rightarrow> int" where
  "or_zero x = (case x of None \<Rightarrow> 0 | Some n \<Rightarrow> if n \<noteq> 0 then n else 0)"

text \<open>
  \<open>divisionMap\<close> is a \<open>Map\<close>: keys in the order of their first insertion.
  \<^verbatim>\<open>
  const divisionName = team.divisionName || "Unknown Division";
  if (!divisionMap.has(divisionName)) { divisionMap.set(divisionName, []); }
  divisionMap.get(divisionName).push(team);
  \<close>
\<close>

definition add_team ::
  "(string \<times> 'a standings_team_scheme list) list \<Rightarrow> 'a standings_team_scheme
     \<Rightarrow> (string \<times> 'a standings_team_scheme list) list" where
  "add_team m team =
     (let division = or_str (divisionName team) ''Unknown Division'';
          m1 = (if map_of m division = None then AList.update division [] m else m)
      in case map_of m1 division of
           None \<Rightarrow> m1
         | Some teams \<Rightarrow> AList.update division (teams @ [team]) m1)"

definition divisionMap ::
  "'a standings_team_scheme list \<Rightarrow> (string \<times> 'a standings_team_scheme list) list" where
  "divisionMap teams = foldl add_team [] teams"

text \<open>
  \<open>teams.sort((a, b) => (b.points || 0) - (a.points || 0))\<close>: \<open>Array.prototype.sort\<close>
  is stable, and a stable sort by a consistent comparator has one result, the one
  insertion from the right computes.
\<close>

fun insert_by :: "('a \<Rightarrow> 'a \<Rightarrow> int) \<Rightarrow> 'a \<Rightarrow> 'a list \<Rightarrow> 'a list" where
  "insert_by cmp x [] = [x]"
| "insert_by cmp x (y # ys) = (if cmp x y \<le> 0 then x # y # ys else y # insert_by cmp x ys)"

definition js_sort :: "('a \<Rightarrow> 'a \<Rightarrow> int) \<Rightarrow> 'a list \<Rightarrow> 'a list" where
  "js_sort cmp xs = foldr (insert_by cmp) xs []"

definition compare_points :: "'a standings_team_scheme \<Rightarrow> 'a standings_team_scheme \<Rightarrow> int" where
  "compare_points a b = or_zero (points b) - or_zero (points a)"

definition format_row :: "'a standings_team_scheme \<Rightarrow> string" where
  "format_row team =
     (let name = or_str (map_option default_text (teamName team)) ''Unknown'';
          gp = or_zero (wins team) + or_zero (losses team) + or_zero (otLosses team)
      in name @ '' | '' @ show_int gp @ '' | '' @ show_int (or_zero (wins team)) @ '' | ''
         @ show_int (or_zero (losses team)) @ '' | '' @ show_int (or_zero (otLosses team))
         @ '' | '' @ show_int (or_zero (points team)) @ '' | ''
         @ show_int (or_zero (goalsFor team)) @ '' | '' @ show_int (or_zero (goalAgainst team)))"

definition format_division :: "string \<times> 'a standings_team_scheme list \<Rightarrow> string list" where
  "format_division entry =
     (case entry of
        (division, teams) \<Rightarrow>
          [CHR 0x0A # ''## '' @ division @ '' Division'',
           ''Team | GP | W | L | OTL | PTS | GF | GA'',
           ''-----|----|----|----|----|-----|----|----|'']
          @ map format_row (js_sort compare_points teams))"

definition formattedStandings :: "'a standings_team_scheme standings_response \<Rightarrow> string list" where
  "formattedStandings response =
     (case standings response of
        None \<Rightarrow> [''No standings data available.'']
      | Some teams \<Rightarrow>
          if 0 < length teams then concat (map format_division (divisionMap teams))
          else [''No standings data available.''])"

definition get_current_standings ::
  "'a standings_team_scheme standings_response option \<Rightarrow> string" where
  "get_current_standings fetched =
     (case fetched of
        None \<Rightarrow> ''Failed to retrieve NHL standings. The NHL API might be unavailable.''
      | Some response \<Rightarrow> join [CHR 0x0A] (formattedStandings response))"

text \<open>A property of a division map, not code of the handler: every team listed under
  a division key has that key.\<close>

definition grouped :: "(string \<times> 'a standings_team_scheme list) list \<Rightarrow> bool" where
  "grouped m = (\<forall>(d, ts)\<in>set m. \<forall>t\<in>set ts. or_str (divisionName t) ''Unknown Division'' = d)"

section \<open>Example upstreams\<close>

text \<open>
  Concrete networks and worlds on which the properties below are exercised. None of
  them compares a string with a number, so the string conversion taken as a parameter
  is the one that accepts no string.
\<close>

definition no_string_gt0 :: "string \<Rightarrow> bool" where
  "no_string_gt0 s = False"

definition fresh_world :: world where
  "fresh_world = \<lparr>requests = [], errlog = []\<rparr>"

definition net_roster_then_stats :: network where
  "net_roster_then_stats h url =
     (if url = NHL_WEB_API_BASE @ ''/roster/TOR/current''
      then Response 200 (Some (JObj [(''name'', JStr ''Toronto Maple Leafs'')]))
      else if url = NHL_WEB_API_BASE @ ''/club-stats/TOR/now''
      then Response 200 (Some (JObj [(''teamName'', JStr ''Maple Leafs'')]))
      else NetworkError)"

definition roster_complete_doc :: jsval where
  "roster_complete_doc =
     JObj [(''name'', JStr ''Toronto Maple Leafs''),
           (''division'', JObj [(''name'', JStr ''Atlantic'')]),
           (''conference'', JObj [(''name'', JStr ''Eastern'')])]"

definition net_roster_complete :: network where
  "net_roster_complete h url =
     (if url = NHL_WEB_API_BASE @ ''/roster/TOR/current''
      then Response 200 (Some roster_complete_doc)
      else Response 200 (Some (JObj [(''name'', JStr ''Somebody Else'')])))"

definition net_null_stats :: network where
  "net_null_stats h url =
     (if url = NHL_WEB_API_BASE @ ''/roster/TOR/current''
      then Response 200 (Some (JObj [(''name'', JStr ''Toronto Maple Leafs'')]))
      else if url = NHL_WEB_API_BASE @ ''/club-stats/TOR/now''
      then Response 200 (Some (JObj [(''teamStats'', JArr [JNull])]))
      else NetworkError)"

definition net_down :: network where
  "net_down h url = NetworkError"

definition standings_team_no_numbers :: jsval where
  "standings_team_no_numbers =
     JObj [(''teamAbbrev'', JObj [(''default'', JStr ''TOR'')]),
           (''teamName'', JObj [(''default'', JStr ''Toronto Maple Leafs'')])]"

definition standings_division_no_numbers :: jsval where
  "standings_division_no_numbers =
     JObj [(''divisionName'', JStr ''Atlantic''),
           (''conferenceAbbrev'', JStr ''E''),
           (''teamRecords'', JArr [standings_team_no_numbers])]"

definition standings_doc_no_numbers :: jsval where
  "standings_doc_no_numbers =
     JObj [(''standings'',
            JObj [(''divisionStandings'', JArr [standings_division_no_numbers])])]"

definition club_stats_doc_no_numbers :: jsval where
  "club_stats_doc_no_numbers =
     JObj [(''teamName'', JStr ''Maple Leafs''),
           (''teamStats'', JArr [JObj [(''season'', JStr ''20242025'')]])]"

definition leaders_doc_empty :: jsval where
  "leaders_doc_empty =
     JObj [(''categories'', JArr [JObj [(''categoryName'', JStr ''goals''), (''leaders'', JArr [])]])]"

definition leaders_rows :: jsval where
  "leaders_rows =
     JArr [JObj [(''fullName'', JStr ''Auston Matthews''), (''value'', JNum 69)],
           JObj [(''fullName'', JStr ''Sam Reinhart''), (''value'', JNum 57)]]"

definition net_leaders_second :: network where
  "net_leaders_second h url =
     (if url = NHL_WEB_API_BASE @ ''/skater-stats-leaders/current?categories=goals&limit=10''
      then Response 200 (Some leaders_doc_empty)
      else if url = NHL_STATS_API_BASE @ ''/leaders/skaters/goals?limit=10''
      then Response 200 (Some (JObj [(''data'', leaders_rows)]))
      else NetworkError)"

definition net_standings_only :: network where
  "net_standings_only h url =
     (if url = NHL_WEB_API_BASE @ ''/standings/now''
      then Response 200 (Some standings_doc_no_numbers)
      else NetworkError)"

definition player_doc :: jsval where
  "player_doc = JObj [(''fullName'', JStr ''Connor McDavid''), (''teamId'', JNum 22)]"

definition teams_doc :: jsval where
  "teams_doc =
     JObj [(''standings'', JObj [(''divisionStandings'', JArr
       [JObj [(''teamRecords'', JArr
          [JObj [(''teamId'', JNum 22),
                 (''teamName'', JObj [(''default'', JStr ''Edmonton Oilers'')]),
                 (''teamAbbrev'', JObj [(''default'', JStr ''EDM'')])]])]])])]"

definition net_player :: network where
  "net_player h url =
     (if url = NHL_WEB_API_BASE @ ''/player/8478402/landing''
      then Response 200 (Some player_doc)
      else if url = NHL_WEB_API_BASE @ ''/standings/now''
      then Response 200 (Some teams_doc)
      else NetworkError)"


record upstream_team = standings_team +
  gamesPlayed :: "int option"

definition leafs_row :: upstream_team where
  "leafs_row =
     \<lparr>divisionName = Some ''Atlantic'',
      teamName = Some \<lparr>default_text = ''Toronto Maple Leafs''\<rparr>,
      wins = Some 10, losses = Some 5, otLosses = None, points = Some 20,
      goalsFor = Some 50, goalAgainst = Some 41, gamesPlayed = Some 99\<rparr>"

definition bruins_row :: upstream_team where
  "bruins_row =
     \<lparr>divisionName = Some ''Atlantic'',
      teamName = Some \<lparr>default_text = ''Boston Bruins''\<rparr>,
      wins = Some 12, losses = Some 3, otLosses = Some 1, points = Some 25,
      goalsFor = Some 55, goalAgainst = Some 38, gamesPlayed = None\<rparr>"

section \<open>Properties of safeString\<close>

lemma safeString_primitive:
  "safeString Undefined d = d" "safeString JNull d = d"
  "safeString (JStr s) d = s" "safeString (JNum n) d = show_int n"
  "safeString (JBool b) d = (if b then ''true'' else ''false'')"
  "safeString (JArr xs) d = d" "safeString (JObj kvs) d = d"
  by (simp_all add: safeString_def)

lemma safeString_localized_plain:
  assumes "typeof v \<noteq> TObject \<or> \<not> truthy (field v ''default'')"
  shows "safeString_localized v d = JStr (safeString v d)"
  using assms by (cases v) (auto simp: safeString_localized_def safeString_def)

lemma safeString_localized_wrapper:
  assumes "v \<noteq> JNull" and "typeof v = TObject" and "truthy (field v ''default'')"
  shows "safeString_localized v d = field v ''default''"
  using assms by (cases v) (auto simp: safeString_localized_def)

lemma safeString_play_by_play_absent:
  assumes "v = Undefined \<or> v = JNull"
  shows "safeString_play_by_play v d = Inr (JStr d)"
  using assms by (auto simp: safeString_play_by_play_def)

lemma safeString_play_by_play_wrapper:
  assumes "v \<noteq> JNull" and "typeof v = TObject" and "truthy (field v ''default'')"
  shows "safeString_play_by_play v d = Inr (field v ''default'')"
  using assms by (cases v) (auto simp: safeString_play_by_play_def)

lemma safeString_play_by_play_primitive:
  assumes "typeof v = TString \<or> typeof v = TNumber \<or> typeof v = TBoolean"
  shows "safeString_play_by_play v d = Inr (JStr (safeString v d))"
  using assms by (cases v) (auto simp: safeString_play_by_play_def safeString_def)

text \<open>
  The last line of the get-game-play-by-play form on an object that wraps nothing:
  the placeholder its sibling forms replace by the caller's default.
\<close>

lemma safeString_play_by_play_placeholder:
  "safeString_play_by_play (JObj [(''id'', JNum 1)]) ''N/A'' = Inr (JStr ''[object Object]'')"
  by (simp add: safeString_play_by_play_def obj_get_def)

text \<open>
  C7, as the code has it. The plain \<open>safeString\<close> (get-player, get-skater-leaders)
  returns the string itself for a string, the decimal or \<open>true\<close>/\<open>false\<close> rendering
  for a number or boolean, and the caller's default for \<open>null\<close>, \<open>undefined\<close>,
  objects and arrays. The localized-wrapper form agrees with it except on an object
  whose \<open>default\<close> property is truthy: there it returns that property, whatever it
  is. The get-game-play-by-play form returns the caller's default for \<open>null\<close> and
  \<open>undefined\<close>, the \<open>default\<close> property of an object that has a truthy one, and what
  the plain form returns for a string, a number or a boolean.
\<close>

theorem safeString_absence_safety:
  "(v = Undefined \<or> v = JNull \<or> typeof v = TObject \<longrightarrow> safeString v d = d)
   \<and> (\<forall>s. v = JStr s \<longrightarrow> safeString v d = s)
   \<and> (\<forall>n. v = JNum n \<longrightarrow> safeString v d = show_int n)
   \<and> (\<forall>b. v = JBool b \<longrightarrow> safeString v d = (if b then ''true'' else ''false''))
   \<and> (typeof v \<noteq> TObject \<or> \<not> truthy (field v ''default'')
        \<longrightarrow> safeString_localized v d = JStr (safeString v d))
   \<and> (v \<noteq> JNull \<and> typeof v = TObject \<and> truthy (field v ''default'')
        \<longrightarrow> safeString_localized v d = field v ''default'')
   \<and> (v = Undefined \<or> v = JNull \<longrightarrow> safeString_play_by_play v d = Inr (JStr d))
   \<and> (v \<noteq> JNull \<and> typeof v = TObject \<and> truthy (field v ''default'')
        \<longrightarrow> safeString_play_by_play v d = Inr (field v ''default''))
   \<and> (typeof v = TString \<or> typeof v = TNumber \<or> typeof v = TBoolean
        \<longrightarrow> safeString_play_by_play v d = Inr (JStr (safeString v d)))"
proof -
  have "v = Undefined \<or> v = JNull \<or> typeof v = TObject \<longrightarrow> safeString v d = d"
    by (cases v) (simp_all add: safeString_primitive)
  then show ?thesis
    using safeString_localized_plain [of v d] safeString_localized_wrapper [of v d]
      safeString_play_by_play_absent [of v d] safeString_play_by_play_wrapper [of v d]
      safeString_play_by_play_primitive [of v d]
    by (simp add: safeString_primitive)
qed

theorem safeString_absence_safety_witness:
  "safeString (JObj [(''default'', JStr ''Edmonton'')]) ''N/A'' = ''N/A''
   \<and> safeString_localized (JObj [(''default'', JStr ''Edmonton'')]) ''N/A'' = JStr ''Edmonton''
   \<and> safeString_localized (JObj [(''default'', JNum 5)]) ''N/A'' = JNum 5
   \<and> safeString_localized (JArr [JNum 1]) ''N/A'' = JStr ''N/A''
   \<and> safeString_play_by_play JNull ''N/A'' = Inr (JStr ''N/A'')
   \<and> safeString_play_by_play (JObj [(''default'', JStr ''Edmonton'')]) ''N/A''
       = Inr (JStr ''Edmonton'')
   \<and> safeString_play_by_play (JStr ''goal'') ''N/A'' = Inr (JStr ''goal'')"
  using safeString_absence_safety [of "JObj [(''default'', JStr ''Edmonton'')]" "''N/A''"]
    safeString_absence_safety [of "JObj [(''default'', JNum 5)]" "''N/A''"]
    safeString_absence_safety [of "JArr [JNum 1]" "''N/A''"]
    safeString_absence_safety [of JNull "''N/A''"]
    safeString_absence_safety [of "JStr ''goal''" "''N/A''"]
  by (simp add: obj_get_def)

theorem safeString_localized_counterexample:
  "safeString_localized (JObj [(''default'', JStr ''Edmonton'')]) ''N/A'' = JStr ''Edmonton''
   \<and> safeString_localized (JObj [(''default'', JStr ''Edmonton'')]) ''N/A'' \<noteq> JStr ''N/A''"
  by (simp add: safeString_localized_def obj_get_def)

section \<open>Properties of the get-team endpoint loop\<close>

lemma map_of_assign:
  "map_of (assign ob es) k = (case map_of (rev es) k of Some v \<Rightarrow> Some v | None \<Rightarrow> map_of ob k)"
  unfolding assign_def
  by (induction es arbitrary: ob) (auto simp: update_conv' map_add_def split: option.splits)

lemma map_of_rev_distinct:
  "distinct (map fst xs) \<Longrightarrow> map_of (rev xs) = map_of xs"
proof (induction xs)
  case Nil
  then show ?case by simp
next
  case (Cons x xs)
  obtain a b where x: "x = (a, b)" by (cases x)
  from Cons.prems x have "map_of xs a = None"
    by (simp add: map_of_eq_None_iff)
  with Cons x show ?case
    by (auto simp: map_add_def fun_eq_iff split: option.splits)
qed

lemma map_of_filter_distinct:
  assumes keys: "distinct (map fst al)"
  shows "map_of (filter Q al) key =
     (case map_of al key of Some val \<Rightarrow> (if Q (key, val) then Some val else None)
      | None \<Rightarrow> None)"
  using keys
proof (induction al)
  case Nil
  then show ?case by simp
next
  case (Cons x al)
  obtain a b where x: "x = (a, b)" by (cases x)
  from Cons.prems x have "a \<notin> fst ` set al" by simp
  then have "a \<notin> fst ` set (filter Q al)" by auto
  then have "map_of (filter Q al) a = None" by (simp add: map_of_eq_None_iff)
  with Cons x show ?case by auto
qed

lemma obj_get_merge_team:
  "obj_get (merge_team teamData parsedTeam) k =
     (if nullish (obj_get parsedTeam k) then obj_get teamData k else obj_get parsedTeam k)"
proof -
  let ?P = "\<lambda>(k, v). v \<noteq> Undefined \<and> v \<noteq> JNull"
  let ?F = "filter ?P (entries parsedTeam)"
  have dF: "distinct (map fst ?F)"
    by (simp add: entries_def distinct_clearjunk distinct_map_filter)
  have F: "map_of ?F k = (case map_of parsedTeam k of None \<Rightarrow> None
             | Some v \<Rightarrow> if v \<noteq> Undefined \<and> v \<noteq> JNull then Some v else None)"
    by (simp add: map_of_filter_distinct entries_def distinct_clearjunk map_of_clearjunk
        split: option.splits)
  have B: "map_of (fromEntries ?F) k = map_of ?F k"
    by (simp add: fromEntries_def map_of_assign map_of_rev_distinct [OF dF] split: option.splits)
  have "map_of (merge_team teamData parsedTeam) k =
          (case map_of (fromEntries ?F) k of None \<Rightarrow> map_of teamData k | Some v \<Rightarrow> Some v)"
    by (simp add: merge_team_def spread_def map_of_assign entries_def
        map_of_rev_distinct distinct_clearjunk map_of_clearjunk)
  with B F show ?thesis
    by (auto simp: obj_get_def nullish_def split: option.splits)
qed

lemma requests_makeNHLRequest:
  "requests (snd (makeNHLRequest net url w)) = requests w @ [url]"
  by (simp add: makeNHLRequest_def Let_def split: sum.splits)

lemma try_endpoints_requests:
  "try_endpoints net eps (teamData, errs, w) = (teamData', errs', w') \<Longrightarrow>
   \<exists>n\<le>length eps. requests w' = requests w @ map ep_url (take n eps)
      \<and> (n < length eps \<longrightarrow> complete teamData')"
proof (induction eps arbitrary: teamData errs w)
  case Nil
  then show ?case by simp
next
  case (Cons ep eps)
  obtain data w1 where m: "makeNHLRequest net (ep_url ep) w = (data, w1)"
    by (cases "makeNHLRequest net (ep_url ep) w")
  then have r1: "requests w1 = requests w @ [ep_url ep]"
    using requests_makeNHLRequest [of net "ep_url ep" w] by simp
  have "(\<exists>p. truthy data \<and> parseTeam ep data = Inr p \<and> complete (merge_team teamData p)
            \<and> try_endpoints net (ep # eps) (teamData, errs, w) = (merge_team teamData p, errs, w1))
        \<or> (\<exists>t e. try_endpoints net (ep # eps) (teamData, errs, w) = try_endpoints net eps (t, e, w1))"
    using m by (cases "truthy data"; cases "parseTeam ep data") auto
  then show ?case
  proof (elim disjE exE conjE)
    fix p
    assume "complete (merge_team teamData p)"
      and "try_endpoints net (ep # eps) (teamData, errs, w) = (merge_team teamData p, errs, w1)"
    with Cons.prems r1 show ?thesis by (intro exI [of _ 1]) auto
  next
    fix t e
    assume "try_endpoints net (ep # eps) (teamData, errs, w) = try_endpoints net eps (t, e, w1)"
    with Cons.prems have "try_endpoints net eps (t, e, w1) = (teamData', errs', w')"
      by simp
    from Cons.IH [OF this] obtain n where n: "n \<le> length eps"
      "requests w' = requests w1 @ map ep_url (take n eps)"
      "n < length eps \<longrightarrow> complete teamData'" by blast
    with r1 show ?thesis by (intro exI [of _ "Suc n"]) auto
  qed
qed

lemma try_endpoints_keeps_set:
  "\<not> nullish (obj_get teamData k) \<Longrightarrow>
   \<not> nullish (obj_get (fst (try_endpoints net eps (teamData, errs, w))) k)"
proof (induction eps arbitrary: teamData errs w)
  case Nil
  then show ?case by simp
next
  case (Cons ep eps)
  obtain data w1 where m: "makeNHLRequest net (ep_url ep) w = (data, w1)"
    by (cases "makeNHLRequest net (ep_url ep) w")
  have keep: "\<not> nullish (obj_get (merge_team teamData p) k)" for p
    using Cons.prems by (simp add: obj_get_merge_team)
  show ?case
    using m Cons.IH [OF Cons.prems] Cons.IH [OF keep] keep
    by (cases "truthy data"; cases "parseTeam ep data") auto
qed

text \<open>
  C1, as the code has it. The merge step writes every field of the partial record that
  is neither \<open>undefined\<close> nor \<open>null\<close> over the accumulated one and leaves the
  other fields alone: a later endpoint replaces a field it carries (last writer wins),
  and it cannot clear a field: a field that holds a value holds one after every later
  endpoint.
\<close>

theorem merge_never_clears:
  "obj_get (merge_team teamData parsedTeam) k =
     (if nullish (obj_get parsedTeam k) then obj_get teamData k else obj_get parsedTeam k)
   \<and> (\<not> nullish (obj_get teamData k) \<longrightarrow>
        \<not> nullish (obj_get (fst (try_endpoints net eps (teamData, errs, w))) k))"
  using obj_get_merge_team [of teamData parsedTeam k]
    try_endpoints_keeps_set [of teamData k net eps errs w]
  by simp

theorem merge_never_clears_witness:
  "obj_get (merge_team [(''name'', JStr ''Toronto Maple Leafs'')]
              [(''name'', JNull), (''teamId'', JNum 10)]) ''name'' = JStr ''Toronto Maple Leafs''
   \<and> \<not> nullish (obj_get (fst (try_endpoints net_roster_then_stats (endpoints ''TOR'')
                 ([(''name'', JStr ''Toronto Maple Leafs'')], [], fresh_world))) ''name'')"
  using merge_never_clears [of "[(''name'', JStr ''Toronto Maple Leafs'')]"
      "[(''name'', JNull), (''teamId'', JNum 10)]" "''name''"
      net_roster_then_stats "endpoints ''TOR''" "[]" fresh_world]
  by (simp add: obj_get_def nullish_def)

theorem first_writer_wins_counterexample:
  "obj_get (fst (try_endpoints net_roster_then_stats (take 1 (endpoints ''TOR''))
                   ([], [], fresh_world))) ''name'' = JStr ''Toronto Maple Leafs''
   \<and> obj_get (fst (try_endpoints net_roster_then_stats (endpoints ''TOR'')
                   ([], [], fresh_world))) ''name'' = JStr ''Maple Leafs''"
  by code_simp

lemma get_team_requests:
  assumes "try_endpoints net (endpoints (trim (toUpperCase a))) ([], [], w0) = (td, errs, w1)"
  shows "requests (snd (get_team sg net a w0)) =
           (if truthy (obj_get td ''name'')
            then requests w1 @ [stats_url (trim (toUpperCase a))] else requests w1)"
  using assms requests_makeNHLRequest [of net "stats_url (trim (toUpperCase a))" w1]
  by (auto simp: get_team_def Let_def split: prod.splits)

lemma stats_url_is_second_endpoint:
  "stats_url teamCode = ep_url (endpoints teamCode ! Suc 0)"
  by (simp add: stats_url_def endpoints_def)

text \<open>
  C2, as the code has it. In the endpoint loop the completeness test (name, division
  and conference all truthy) follows each merge, and when the merged record is complete
  the loop returns at once: the only request it made for that step is the one to that
  endpoint, and it tries none of the endpoints after it. Over a whole run the loop's
  requests are a prefix of the endpoint list in order, and an endpoint is left untried
  only when the accumulated record is complete. The handler is not done with the
  network then: with a name in hand it requests the club statistics once more after
  the loop, and that URL is the URL of the second endpoint of the list, so it is
  fetched even when the first endpoint alone completed the record.
\<close>

theorem short_circuit_on_completeness:
  "(makeNHLRequest net (ep_url ep) w = (data, w1) \<and> truthy data
      \<and> parseTeam ep data = Inr p \<and> complete (merge_team teamData p)
     \<longrightarrow> try_endpoints net (ep # eps) (teamData, errs, w) = (merge_team teamData p, errs, w1)
         \<and> requests w1 = requests w @ [ep_url ep])
   \<and> (try_endpoints net eps (teamData, errs, w) = (teamData', errs', w')
     \<longrightarrow> (\<exists>n\<le>length eps. requests w' = requests w @ map ep_url (take n eps)
            \<and> (n < length eps \<longrightarrow> complete teamData')))
   \<and> (try_endpoints net (endpoints (trim (toUpperCase a))) ([], [], w0) = (td, terrs, tw)
     \<longrightarrow> requests (snd (get_team sg net a w0)) =
           (if truthy (obj_get td ''name'')
            then requests tw @ [stats_url (trim (toUpperCase a))] else requests tw))
   \<and> stats_url teamCode = ep_url (endpoints teamCode ! Suc 0)"
proof -
  have "requests w1 = requests w @ [ep_url ep]"
    if "makeNHLRequest net (ep_url ep) w = (data, w1)"
    using that requests_makeNHLRequest [of net "ep_url ep" w] by simp
  then show ?thesis
    using try_endpoints_requests [of net eps teamData errs w teamData' errs' w']
      get_team_requests [of net a w0 td terrs tw sg]
      stats_url_is_second_endpoint [of teamCode]
    by auto
qed

theorem short_circuit_on_completeness_witness:
  "try_endpoints net_roster_complete (endpoints ''TOR'') ([], [], fresh_world) =
     (merge_team [] [(''teamId'', Undefined), (''name'', JStr ''Toronto Maple Leafs''),
                     (''abbrev'', JStr ''TOR''), (''locationName'', Undefined),
                     (''teamName'', Undefined),
                     (''division'', JObj [(''name'', JStr ''Atlantic'')]),
                     (''conference'', JObj [(''name'', JStr ''Eastern'')])],
      [], \<lparr>requests = [NHL_WEB_API_BASE @ ''/roster/TOR/current''], errlog = []\<rparr>)
   \<and> requests (snd (get_team no_string_gt0 net_roster_complete ''TOR'' fresh_world)) =
       requests (snd (snd (try_endpoints net_roster_complete
                             (endpoints (trim (toUpperCase ''TOR''))) ([], [], fresh_world))))
       @ [stats_url (trim (toUpperCase ''TOR''))]"
proof -
  let ?ep = "hd (endpoints ''TOR'')"
  let ?w1 = "\<lparr>requests = [NHL_WEB_API_BASE @ ''/roster/TOR/current''], errlog = []\<rparr>"
  let ?p = "[(''teamId'', Undefined), (''name'', JStr ''Toronto Maple Leafs''),
             (''abbrev'', JStr ''TOR''), (''locationName'', Undefined),
             (''teamName'', Undefined),
             (''division'', JObj [(''name'', JStr ''Atlantic'')]),
             (''conference'', JObj [(''name'', JStr ''Eastern'')])]"
  let ?run = "try_endpoints net_roster_complete (endpoints (trim (toUpperCase ''TOR'')))
                ([], [], fresh_world)"
  have a: "makeNHLRequest net_roster_complete (ep_url ?ep) fresh_world = (roster_complete_doc, ?w1)"
    by code_simp
  have b: "truthy roster_complete_doc" by code_simp
  have c: "parseTeam ?ep roster_complete_doc = Inr ?p" by code_simp
  have d: "complete (merge_team [] ?p)" by code_simp
  have e: "endpoints ''TOR'' = ?ep # tl (endpoints ''TOR'')" by (simp add: endpoints_def)
  have f: "?run = (fst ?run, fst (snd ?run), snd (snd ?run))" by simp
  have g: "truthy (obj_get (fst ?run) ''name'')" by code_simp
  note inst = short_circuit_on_completeness
      [where net = net_roster_complete and ep = ?ep and w = fresh_world
         and data = roster_complete_doc and ?w1.0 = ?w1 and p = ?p and teamData = "[]"
         and eps = "tl (endpoints ''TOR'')" and errs = "[]"
         and a = "''TOR''" and ?w0.0 = fresh_world and td = "fst ?run"
         and terrs = "fst (snd ?run)" and tw = "snd (snd ?run)" and sg = no_string_gt0]
  from a b c d inst
  have one: "try_endpoints net_roster_complete (?ep # tl (endpoints ''TOR'')) ([], [], fresh_world)
          = (merge_team [] ?p, [], ?w1)"
    by blast
  from f g inst
  have two: "requests (snd (get_team no_string_gt0 net_roster_complete ''TOR'' fresh_world)) =
       requests (snd (snd ?run)) @ [stats_url (trim (toUpperCase ''TOR''))]"
    by simp
  from one two e show ?thesis by simp
qed

theorem later_endpoint_url_fetched_counterexample:
  "complete (fst (try_endpoints net_roster_complete (endpoints ''TOR'') ([], [], fresh_world)))
   \<and> requests (snd (snd (try_endpoints net_roster_complete (endpoints ''TOR'')
                            ([], [], fresh_world))))
       = [ep_url (endpoints ''TOR'' ! 0)]
   \<and> requests (snd (get_team no_string_gt0 net_roster_complete ''TOR'' fresh_world))
       = [ep_url (endpoints ''TOR'' ! 0), ep_url (endpoints ''TOR'' ! 1)]"
  by code_simp

lemma hd_join: "hd (join sep ((c # x) # xs)) = c"
  by (cases xs) simp_all

lemma render_team_not_failure:
  "render_team sg code td sd \<noteq> Inr (failure_text code')"
proof -
  have f: "hd (failure_text code') = CHR ''F''" by (simp add: failure_text_def)
  have t: "hd (join line_sep (teamInfo code td @ more)) = CHR ''T''" for more
    by (simp add: teamInfo_def hd_join)
  have ne: "join line_sep (teamInfo code td @ more) \<noteq> failure_text code'" for more
  proof
    assume "join line_sep (teamInfo code td @ more) = failure_text code'"
    then have "hd (join line_sep (teamInfo code td @ more)) = hd (failure_text code')"
      by simp
    with f t [of more] show False by simp
  qed
  from ne [of "[]"] ne show ?thesis
    by (auto simp: render_team_def Let_def)
qed

lemma get_team_not_found:
  assumes "\<not> truthy (obj_get (fst (try_endpoints net (endpoints (trim (toUpperCase a))) ([], [], w0))) ''name'')"
  shows "fst (get_team sg net a w0) = Inr (failure_text (trim (toUpperCase a)))"
proof -
  obtain td errs w1
    where run: "try_endpoints net (endpoints (trim (toUpperCase a))) ([], [], w0) = (td, errs, w1)"
    by (cases "try_endpoints net (endpoints (trim (toUpperCase a))) ([], [], w0)") auto
  with assms show ?thesis by (simp add: get_team_def Let_def)
qed

lemma get_team_failure_exhausted:
  assumes "fst (get_team sg net a w0) = Inr (failure_text (trim (toUpperCase a)))"
  shows "requests (snd (get_team sg net a w0)) =
           requests w0 @ map ep_url (endpoints (trim (toUpperCase a)))"
proof -
  let ?code = "trim (toUpperCase a)"
  obtain td errs w1 where run: "try_endpoints net (endpoints ?code) ([], [], w0) = (td, errs, w1)"
    by (cases "try_endpoints net (endpoints ?code) ([], [], w0)") auto
  have nm: "\<not> truthy (obj_get td ''name'')"
  proof
    assume "truthy (obj_get td ''name'')"
    with run assms show False
      by (simp add: get_team_def Let_def render_team_not_failure split: prod.splits)
  qed
  then have "\<not> complete td" by (simp add: complete_def)
  with try_endpoints_requests [OF run]
  have "requests w1 = requests w0 @ map ep_url (endpoints ?code)"
    by (metis le_neq_implies_less take_all order_refl)
  with run nm show ?thesis by (simp add: get_team_def Let_def)
qed

text \<open>
  C3. With the roster endpoint giving a name and the club statistics answering
  \<open>{"teamStats": [null]}\<close>, the name is present after the loop, the statistics are
  fetched, \<open>teamStats.length > 0\<close> holds and \<open>stats.wins\<close> is read from \<open>null\<close>:
  the handler throws instead of returning the rendered record.
\<close>

theorem get_team_throws_on_null_stats:
  "truthy (obj_get (fst (try_endpoints net_null_stats (endpoints ''TOR'') ([], [], fresh_world)))
             ''name'')
   \<and> fst (get_team no_string_gt0 net_null_stats ''TOR'' fresh_world) = Inl TypeError"
  by code_simp

text \<open>
  C4. A rejected fetch, a status outside 200..299 and a body that is not JSON all end
  in the \<open>catch\<close> of \<open>makeNHLRequest\<close>: it logs the error and returns \<open>null\<close>. The
  endpoint loop then goes on to the next endpoint with the accumulated record
  untouched. The handler answers with its failure text only after it has requested
  every endpoint of the list.
\<close>

theorem fetch_failures_are_absorbed:
  "fetch_json NetworkError = Inl FetchRejected
   \<and> (\<not> response_ok status \<longrightarrow> fetch_json (Response status body) = Inl (HttpError status))
   \<and> (response_ok status \<longrightarrow> fetch_json (Response status None) = Inl MalformedBody)
   \<and> (fetch_json (net (requests w) (ep_url ep)) = Inl e \<longrightarrow>
        makeNHLRequest net (ep_url ep) w =
          (JNull, \<lparr>requests = requests w @ [ep_url ep], errlog = errlog w @ [e]\<rparr>)
        \<and> try_endpoints net (ep # eps) (teamData, errs, w) =
            try_endpoints net eps
              (teamData, errs, \<lparr>requests = requests w @ [ep_url ep], errlog = errlog w @ [e]\<rparr>))
   \<and> (fst (get_team sg net a w0) = Inr (failure_text (trim (toUpperCase a))) \<longrightarrow>
        requests (snd (get_team sg net a w0)) =
          requests w0 @ map ep_url (endpoints (trim (toUpperCase a))))"
proof -
  have "makeNHLRequest net (ep_url ep) w =
          (JNull, \<lparr>requests = requests w @ [ep_url ep], errlog = errlog w @ [e]\<rparr>)"
    if "fetch_json (net (requests w) (ep_url ep)) = Inl e"
    using that by (simp add: makeNHLRequest_def Let_def)
  then show ?thesis
    using get_team_failure_exhausted [of sg net a w0] by simp
qed

theorem fetch_failures_are_absorbed_witness:
  "makeNHLRequest net_down (ep_url (hd (endpoints ''ZZZ''))) fresh_world =
     (JNull, \<lparr>requests = [ep_url (hd (endpoints ''ZZZ''))], errlog = [FetchRejected]\<rparr>)
   \<and> requests (snd (get_team no_string_gt0 net_down ''zzz'' fresh_world)) =
       map ep_url (endpoints (trim (toUpperCase ''zzz'')))"
proof -
  have a: "fetch_json (net_down (requests fresh_world) (ep_url (hd (endpoints ''ZZZ''))))
             = Inl FetchRejected"
    by (simp add: net_down_def)
  have b: "fst (get_team no_string_gt0 net_down ''zzz'' fresh_world)
             = Inr (failure_text (trim (toUpperCase ''zzz'')))"
    by code_simp
  have c: "requests fresh_world = []" "errlog fresh_world = []"
    by (simp_all add: fresh_world_def)
  from a b c fetch_failures_are_absorbed
      [of 200 None net_down fresh_world "hd (endpoints ''ZZZ'')" FetchRejected "[]" "[]" "[]"
          no_string_gt0 "''zzz''" fresh_world]
  show ?thesis by simp
qed

section \<open>Properties of the get-team parsers and rendering\<close>

lemma club_stats_injects_zero:
  assumes "truthy (field data ''teamStats'')" and "truthy (index0 (field data ''teamStats''))"
    and "f \<in> set [''wins'', ''losses'', ''otLosses'', ''points'']"
    and "field (index0 (field data ''teamStats'')) f = Undefined"
  shows "\<exists>p. parse_club_stats teamCode data = Inr p \<and> field (obj_get p ''record'') f = JNum 0"
proof -
  from assms(1) have nn: "\<not> nullish data" by (auto simp: nullish_def)
  from assms(3) consider "f = ''wins''" | "f = ''losses''" | "f = ''otLosses''" | "f = ''points''"
    by auto
  then show ?thesis
  proof cases
    case 1
    with nn assms(1,2,4) show ?thesis
      by (simp add: parse_club_stats_def js_and_def Let_def obj_get_def js_or_def)
  next
    case 2
    with nn assms(1,2,4) show ?thesis
      by (simp add: parse_club_stats_def js_and_def Let_def obj_get_def js_or_def)
  next
    case 3
    with nn assms(1,2,4) show ?thesis
      by (simp add: parse_club_stats_def js_and_def Let_def obj_get_def js_or_def)
  next
    case 4
    with nn assms(1,2,4) show ?thesis
      by (simp add: parse_club_stats_def js_and_def Let_def obj_get_def js_or_def)
  qed
qed

lemma standings_injects_zero:
  assumes "\<not> nullish data" and "js_iterate (standings_divisions data) = Inr ds"
    and "find_division teamCode ds = Inr (Some (d, t))"
    and "f \<in> set [''wins'', ''losses'', ''otLosses'', ''points'']"
    and "field t f = Undefined"
  shows "\<exists>p. parse_standings teamCode data = Inr p \<and> field (obj_get p ''record'') f = JNum 0"
proof -
  from assms(4) consider "f = ''wins''" | "f = ''losses''" | "f = ''otLosses''" | "f = ''points''"
    by auto
  then show ?thesis
  proof cases
    case 1
    with assms(1,2,3,5) show ?thesis
      by (simp add: parse_standings_def obj_get_def js_or_def)
  next
    case 2
    with assms(1,2,3,5) show ?thesis
      by (simp add: parse_standings_def obj_get_def js_or_def)
  next
    case 3
    with assms(1,2,3,5) show ?thesis
      by (simp add: parse_standings_def obj_get_def js_or_def)
  next
    case 4
    with assms(1,2,3,5) show ?thesis
      by (simp add: parse_standings_def obj_get_def js_or_def)
  qed
qed

lemma parser_abbrev:
  assumes "ep \<in> set (endpoints teamCode)" and "parseTeam ep data = Inr p"
  shows "p = [] \<or> map_of p ''abbrev'' = Some (JStr teamCode)"
proof -
  from assms(1) have "parseTeam ep = parse_roster teamCode \<or> parseTeam ep = parse_club_stats teamCode
      \<or> parseTeam ep = parse_team_info teamCode \<or> parseTeam ep = parse_standings teamCode"
    by (auto simp: endpoints_def)
  moreover have "map_of p ''abbrev'' = Some (JStr teamCode)" if "parse_roster teamCode data = Inr p"
    using that by (auto simp: parse_roster_def split: if_splits)
  moreover have "map_of p ''abbrev'' = Some (JStr teamCode)" if "parse_club_stats teamCode data = Inr p"
    using that by (auto simp: parse_club_stats_def split: if_splits)
  moreover have "p = [] \<or> map_of p ''abbrev'' = Some (JStr teamCode)"
    if "parse_team_info teamCode data = Inr p"
    using that by (auto simp: parse_team_info_def split: if_splits sum.splits)
  moreover have "p = [] \<or> map_of p ''abbrev'' = Some (JStr teamCode)"
    if "parse_standings teamCode data = Inr p"
    using that by (auto simp: parse_standings_def split: if_splits sum.splits option.splits)
  ultimately show ?thesis using assms(2) by metis
qed

lemma obj_get_filter_key:
  "k \<noteq> k' \<Longrightarrow> obj_get (filter (\<lambda>(a, v). a \<noteq> k') ob) k = obj_get ob k"
  by (induction ob) (auto simp: obj_get_def)

lemma complete_ignores_record:
  "complete (merge_team teamData (filter (\<lambda>(a, v). a \<noteq> ''record'') parsedTeam))
     = complete (merge_team teamData parsedTeam)"
  by (simp add: complete_def obj_get_merge_team obj_get_filter_key)

lemma map_of_merge_team:
  "map_of (merge_team teamData parsedTeam) k =
     (case map_of parsedTeam k of
        None \<Rightarrow> map_of teamData k
      | Some v \<Rightarrow> if v \<noteq> Undefined \<and> v \<noteq> JNull then Some v else map_of teamData k)"
proof -
  let ?P = "\<lambda>(k, v). v \<noteq> Undefined \<and> v \<noteq> JNull"
  let ?F = "filter ?P (entries parsedTeam)"
  have dF: "distinct (map fst ?F)"
    by (simp add: entries_def distinct_clearjunk distinct_map_filter)
  have F: "map_of ?F k = (case map_of parsedTeam k of None \<Rightarrow> None
             | Some v \<Rightarrow> if v \<noteq> Undefined \<and> v \<noteq> JNull then Some v else None)"
    by (simp add: map_of_filter_distinct entries_def distinct_clearjunk map_of_clearjunk
        split: option.splits)
  have B: "map_of (fromEntries ?F) k = map_of ?F k"
    by (simp add: fromEntries_def map_of_assign map_of_rev_distinct [OF dF] split: option.splits)
  have "map_of (merge_team teamData parsedTeam) k =
          (case map_of (fromEntries ?F) k of None \<Rightarrow> map_of teamData k | Some v \<Rightarrow> Some v)"
    by (simp add: merge_team_def spread_def map_of_assign entries_def
        map_of_rev_distinct distinct_clearjunk map_of_clearjunk)
  with B F show ?thesis
    by (auto split: option.splits)
qed

lemma try_endpoints_field_from:
  assumes "\<forall>ep\<in>set eps. \<forall>data p v. parseTeam ep data = Inr p \<longrightarrow> map_of p k = Some v \<longrightarrow> v = c"
    and "\<forall>v. map_of teamData k = Some v \<longrightarrow> v = c"
  shows "\<forall>v. map_of (fst (try_endpoints net eps (teamData, errs, w))) k = Some v \<longrightarrow> v = c"
  using assms
proof (induction eps arbitrary: teamData errs w)
  case Nil
  then show ?case by simp
next
  case (Cons ep eps)
  obtain data w1 where m: "makeNHLRequest net (ep_url ep) w = (data, w1)"
    by (cases "makeNHLRequest net (ep_url ep) w")
  from Cons.prems(1) have rest:
    "\<forall>ep\<in>set eps. \<forall>data p v. parseTeam ep data = Inr p \<longrightarrow> map_of p k = Some v \<longrightarrow> v = c"
    by simp
  have keep: "\<forall>v. map_of (merge_team teamData p) k = Some v \<longrightarrow> v = c"
    if "parseTeam ep data = Inr p" for p
    using that Cons.prems by (auto simp: map_of_merge_team split: option.splits if_splits)
  show ?case
  proof (cases "truthy data")
    case False
    with m Cons.IH [OF rest Cons.prems(2)] show ?thesis by simp
  next
    case True
    show ?thesis
    proof (cases "parseTeam ep data")
      case (Inl e)
      with True m Cons.IH [OF rest Cons.prems(2)] show ?thesis by simp
    next
      case (Inr p)
      with True m Cons.IH [OF rest keep [OF Inr]] keep [OF Inr] show ?thesis by simp
    qed
  qed
qed

lemma render_team_lines:
  assumes "render_team sg code td sd = Inr text"
  shows "\<exists>more. text = join line_sep (teamInfo code td @ more)"
proof -
  have "text = join line_sep (teamInfo code td @ []) \<or>
        text = join line_sep (teamInfo code td @ stats_lines (index0 (field sd ''teamStats''))) \<or>
        text = join line_sep (teamInfo code td @ record_lines (obj_get td ''record''))"
    using assms by (auto simp: render_team_def Let_def simp del: join.simps split: if_splits)
  then show ?thesis by blast
qed

lemma get_team_abbrev_line:
  assumes "fst (get_team sg net a w0) = Inr text"
  shows "text = failure_text (trim (toUpperCase a))
         \<or> (\<exists>l1 rest. text = join line_sep
               (l1 # (''Abbreviation: '' @ trim (toUpperCase a)) # rest))"
proof -
  let ?code = "trim (toUpperCase a)"
  obtain td errs w1 where run: "try_endpoints net (endpoints ?code) ([], [], w0) = (td, errs, w1)"
    by (cases "try_endpoints net (endpoints ?code) ([], [], w0)") auto
  obtain sd w2 where st: "makeNHLRequest net (stats_url ?code) w1 = (sd, w2)"
    by (cases "makeNHLRequest net (stats_url ?code) w1")
  have shape: "\<exists>l1 rest. teamInfo ?code td @ more = l1 # (''Abbreviation: '' @ ?code) # rest"
    for more
    by (simp add: teamInfo_def)
  have "\<exists>l1 rest. text = join line_sep (l1 # (''Abbreviation: '' @ ?code) # rest)"
    if "render_team sg ?code td sd = Inr text"
  proof -
    from render_team_lines [OF that] obtain more
      where "text = join line_sep (teamInfo ?code td @ more)" by blast
    with shape [of more] show ?thesis by metis
  qed
  with assms run st show ?thesis
    by (auto simp: get_team_def Let_def simp del: join.simps split: if_splits)
qed

text \<open>
  C5, as the code has it. The Club Stats parser (when \<open>teamStats[0]\<close> is there) and
  the Standings parser (when it finds the team) build \<open>record\<close> with \<open>|| 0\<close>: a
  count that is absent upstream is the number 0 in the partial record, at parse time.
  The completeness test reads name, division and conference only, so a partial record
  with its \<open>record\<close> dropped completes exactly when the full one does.
\<close>

theorem record_zeros_at_parse_time:
  "(truthy (field data ''teamStats'') \<and> truthy (index0 (field data ''teamStats''))
      \<and> f \<in> set [''wins'', ''losses'', ''otLosses'', ''points'']
      \<and> field (index0 (field data ''teamStats'')) f = Undefined
     \<longrightarrow> (\<exists>p. parse_club_stats teamCode data = Inr p
            \<and> field (obj_get p ''record'') f = JNum 0))
   \<and> (\<not> nullish data' \<and> js_iterate (standings_divisions data') = Inr ds
      \<and> find_division teamCode ds = Inr (Some (d, t))
      \<and> f \<in> set [''wins'', ''losses'', ''otLosses'', ''points'']
      \<and> field t f = Undefined
     \<longrightarrow> (\<exists>p. parse_standings teamCode data' = Inr p
            \<and> field (obj_get p ''record'') f = JNum 0))
   \<and> complete (merge_team teamData (filter (\<lambda>(a, v). a \<noteq> ''record'') parsedTeam))
       = complete (merge_team teamData parsedTeam)"
  using club_stats_injects_zero [of data f teamCode]
    standings_injects_zero [of data' ds teamCode d t f]
    complete_ignores_record [of teamData parsedTeam]
  by blast

theorem record_zeros_at_parse_time_witness:
  "(\<exists>p. parse_club_stats ''TOR'' club_stats_doc_no_numbers = Inr p
        \<and> field (obj_get p ''record'') ''wins'' = JNum 0)
   \<and> (\<exists>p. parse_standings ''TOR'' standings_doc_no_numbers = Inr p
        \<and> field (obj_get p ''record'') ''wins'' = JNum 0)"
proof -
  have a: "truthy (field club_stats_doc_no_numbers ''teamStats'')"
    "truthy (index0 (field club_stats_doc_no_numbers ''teamStats''))"
    "field (index0 (field club_stats_doc_no_numbers ''teamStats'')) ''wins'' = Undefined"
    by code_simp+
  have b: "\<not> nullish standings_doc_no_numbers"
    "js_iterate (standings_divisions standings_doc_no_numbers) = Inr [standings_division_no_numbers]"
    "find_division ''TOR'' [standings_division_no_numbers]
       = Inr (Some (standings_division_no_numbers, standings_team_no_numbers))"
    "field standings_team_no_numbers ''wins'' = Undefined"
    by code_simp+
  have c: "''wins'' \<in> set [''wins'', ''losses'', ''otLosses'', ''points'']" by simp
  from a b c record_zeros_at_parse_time
      [of club_stats_doc_no_numbers "''wins''" "''TOR''" standings_doc_no_numbers
          "[standings_division_no_numbers]" standings_division_no_numbers
          standings_team_no_numbers "[]" "[]"]
  show ?thesis by blast
qed

theorem silent_zero_counterexample:
  "field standings_team_no_numbers ''wins'' = Undefined
   \<and> parse_standings ''TOR'' standings_doc_no_numbers =
       Inr [(''teamId'', Undefined), (''name'', JStr ''Toronto Maple Leafs''),
            (''abbrev'', JStr ''TOR''),
            (''division'', JObj [(''name'', JStr ''Atlantic''), (''shortName'', JStr [])]),
            (''conference'', JObj [(''name'', JStr ''Eastern''), (''shortName'', JStr ''E'')]),
            (''record'', JObj [(''wins'', JNum 0), (''losses'', JNum 0),
                               (''otLosses'', JNum 0), (''points'', JNum 0)])]"
  by code_simp

text \<open>
  C8. Every endpoint parser returns either the empty record (no team matched) or a
  record whose \<open>abbrev\<close> is the team code the handler computed from the caller's
  \<open>teamAbbrev\<close>, upper-cased and trimmed; so an \<open>abbrev\<close> held by the accumulated
  record is that code, whatever the upstream documents say. The second line of every
  rendered answer is \<open>Abbreviation:\<close> followed by that code.
\<close>

theorem caller_team_code_is_canonical:
  "(ep \<in> set (endpoints teamCode) \<and> parseTeam ep data = Inr p
     \<longrightarrow> p = [] \<or> map_of p ''abbrev'' = Some (JStr teamCode))
   \<and> (map_of (fst (try_endpoints net (endpoints teamCode) ([], errs, w))) ''abbrev'' = Some v
     \<longrightarrow> v = JStr teamCode)
   \<and> (fst (get_team sg net a w0) = Inr text
     \<longrightarrow> text = failure_text (trim (toUpperCase a))
         \<or> (\<exists>l1 rest. text = join line_sep
               (l1 # (''Abbreviation: '' @ trim (toUpperCase a)) # rest)))"
proof -
  have "\<forall>ep\<in>set (endpoints teamCode). \<forall>data p v.
          parseTeam ep data = Inr p \<longrightarrow> map_of p ''abbrev'' = Some v \<longrightarrow> v = JStr teamCode"
    using parser_abbrev [of _ teamCode] by fastforce
  from try_endpoints_field_from [OF this, of "[]" net errs w]
  have "map_of (fst (try_endpoints net (endpoints teamCode) ([], errs, w))) ''abbrev'' = Some v
          \<longrightarrow> v = JStr teamCode"
    by simp
  then show ?thesis
    using parser_abbrev [of ep teamCode data p] get_team_abbrev_line [of sg net a w0 "text"]
    by blast
qed

theorem caller_team_code_is_canonical_witness:
  "map_of [(''teamId'', Undefined), (''name'', JStr ''Toronto Maple Leafs''),
           (''abbrev'', JStr ''TOR''), (''locationName'', Undefined),
           (''teamName'', Undefined),
           (''division'', JObj [(''name'', JStr ''Atlantic'')]),
           (''conference'', JObj [(''name'', JStr ''Eastern'')])] ''abbrev'' = Some (JStr ''TOR'')
   \<and> (\<exists>l1 rest.
         join line_sep [''Team: undefined undefined'', ''Abbreviation: TOR'',
                        ''Division: Atlantic'', ''Conference: Eastern'']
         = join line_sep (l1 # (''Abbreviation: '' @ trim (toUpperCase ''tor'')) # rest))"
proof -
  let ?ep = "hd (endpoints ''TOR'')"
  let ?p = "[(''teamId'', Undefined), (''name'', JStr ''Toronto Maple Leafs''),
             (''abbrev'', JStr ''TOR''), (''locationName'', Undefined),
             (''teamName'', Undefined),
             (''division'', JObj [(''name'', JStr ''Atlantic'')]),
             (''conference'', JObj [(''name'', JStr ''Eastern'')])]"
  let ?text = "join line_sep [''Team: undefined undefined'', ''Abbreviation: TOR'',
                              ''Division: Atlantic'', ''Conference: Eastern'']"
  have a: "?ep \<in> set (endpoints ''TOR'')" by (simp add: endpoints_def)
  have b: "parseTeam ?ep roster_complete_doc = Inr ?p" by code_simp
  have c: "?p \<noteq> []" by simp
  have d: "fst (get_team no_string_gt0 net_roster_complete ''tor'' fresh_world) = Inr ?text"
    by code_simp
  have e: "?text \<noteq> failure_text (trim (toUpperCase ''tor''))" by code_simp
  from a b c d e caller_team_code_is_canonical
      [of ?ep "''TOR''" roster_complete_doc ?p net_roster_complete "[]" fresh_world
          "JStr ''TOR''" no_string_gt0 "''tor''" fresh_world ?text]
  show ?thesis by blast
qed

section \<open>Properties of get-skater-leaders\<close>

lemma makeNHLRequest_cases:
  obtains (failed) e where "fetch_json (net (requests w) url) = Inl e"
      "makeNHLRequest net url w = (JNull, \<lparr>requests = requests w @ [url], errlog = errlog w @ [e]\<rparr>)"
  | (fetched) v where "fetch_json (net (requests w) url) = Inr v"
      "makeNHLRequest net url w = (v, \<lparr>requests = requests w @ [url], errlog = errlog w\<rparr>)"
  by (cases "fetch_json (net (requests w) url)") (auto simp: makeNHLRequest_def Let_def)

lemma has_leaders_array:
  "truthy ex \<Longrightarrow> field ex ''leaders'' = JArr xs \<Longrightarrow> has_leaders sg ex = (xs \<noteq> [])"
  by (simp add: has_leaders_def)

lemma leaders_skip:
  assumes "source_extraction sg net ep (requests w) = None"
  shows "\<exists>errs' w1. requests w1 = requests w @ [le_url ep]
           \<and> try_leader_urls sg net (ep # eps) (r, errs, w) = try_leader_urls sg net eps (r, errs', w1)"
proof (cases rule: makeNHLRequest_cases [of net w "le_url ep"])
  case (failed e)
  then show ?thesis by (intro exI [of _ errs] exI [of _ "snd (makeNHLRequest net (le_url ep) w)"]) simp
next
  case (fetched v)
  let ?w1 = "\<lparr>requests = requests w @ [le_url ep], errlog = errlog w\<rparr>"
  show ?thesis
  proof (cases "truthy v")
    case False
    with fetched show ?thesis by (intro exI [of _ errs] exI [of _ ?w1]) simp
  next
    case True
    show ?thesis
    proof (cases "extractor ep v")
      case (Inl e)
      with True fetched show ?thesis
        by (intro exI [of _ "errs @ [(le_format ep, e)]"] exI [of _ ?w1]) simp
    next
      case (Inr ex)
      with True fetched assms have "\<not> has_leaders sg ex"
        by (simp add: source_extraction_def split: if_splits)
      with Inr True fetched show ?thesis by (intro exI [of _ errs] exI [of _ ?w1]) simp
    qed
  qed
qed

lemma leaders_take:
  assumes "source_extraction sg net ep (requests w) = Some ex"
  shows "\<exists>w1. requests w1 = requests w @ [le_url ep]
           \<and> try_leader_urls sg net (ep # eps) (r, errs, w) = (ex, errs, w1)"
proof (cases rule: makeNHLRequest_cases [of net w "le_url ep"])
  case (failed e)
  with assms show ?thesis by (simp add: source_extraction_def)
next
  case (fetched v)
  with assms have "truthy v" "extractor ep v = Inr ex" "has_leaders sg ex"
    by (auto simp: source_extraction_def split: if_splits sum.splits)
  with fetched show ?thesis
    by (intro exI [of _ "\<lparr>requests = requests w @ [le_url ep], errlog = errlog w\<rparr>"]) simp
qed

lemma first_source_with_leaders:
  assumes "i < length eps"
    and "\<forall>j<i. source_extraction sg net (eps ! j) (requests w @ map le_url (take j eps)) = None"
    and "source_extraction sg net (eps ! i) (requests w @ map le_url (take i eps)) = Some ex"
  shows "fst (try_leader_urls sg net eps (r, errs, w)) = ex
     \<and> requests (snd (snd (try_leader_urls sg net eps (r, errs, w))))
         = requests w @ map le_url (take (Suc i) eps)"
  using assms
proof (induction eps arbitrary: i w errs)
  case Nil
  then show ?case by simp
next
  case (Cons ep eps)
  show ?case
  proof (cases i)
    case 0
    with Cons.prems(3) have "source_extraction sg net ep (requests w) = Some ex" by simp
    from leaders_take [OF this, of eps r errs] 0 show ?thesis by auto
  next
    case (Suc i')
    with Cons.prems(2) have "source_extraction sg net ep (requests w) = None" by force
    from leaders_skip [OF this, of eps r errs] obtain errs' w1
      where w1: "requests w1 = requests w @ [le_url ep]"
        and step: "try_leader_urls sg net (ep # eps) (r, errs, w)
                     = try_leader_urls sg net eps (r, errs', w1)"
      by blast
    have a: "i' < length eps" using Cons.prems(1) Suc by simp
    have b: "\<forall>j<i'. source_extraction sg net (eps ! j) (requests w1 @ map le_url (take j eps)) = None"
    proof (intro allI impI)
      fix j assume "j < i'"
      with Cons.prems(2) Suc
      have "source_extraction sg net ((ep # eps) ! Suc j)
              (requests w @ map le_url (take (Suc j) (ep # eps))) = None"
        by (metis Suc_less_eq)
      with w1 show "source_extraction sg net (eps ! j) (requests w1 @ map le_url (take j eps)) = None"
        by simp
    qed
    have c: "source_extraction sg net (eps ! i') (requests w1 @ map le_url (take i' eps)) = Some ex"
      using Cons.prems(3) Suc w1 by simp
    from Cons.IH [OF a b c, of errs'] step w1 Suc show ?thesis by simp
  qed
qed

lemma no_source_with_leaders:
  assumes "\<forall>j<length eps. source_extraction sg net (eps ! j) (requests w @ map le_url (take j eps)) = None"
  shows "fst (try_leader_urls sg net eps (r, errs, w)) = r"
  using assms
proof (induction eps arbitrary: w errs)
  case Nil
  then show ?case by simp
next
  case (Cons ep eps)
  from Cons.prems have "source_extraction sg net ep (requests w) = None" by force
  from leaders_skip [OF this, of eps r errs] obtain errs' w1
    where w1: "requests w1 = requests w @ [le_url ep]"
      and step: "try_leader_urls sg net (ep # eps) (r, errs, w)
                   = try_leader_urls sg net eps (r, errs', w1)"
    by blast
  have "\<forall>j<length eps. source_extraction sg net (eps ! j) (requests w1 @ map le_url (take j eps)) = None"
  proof (intro allI impI)
    fix j assume "j < length eps"
    with Cons.prems
    have "source_extraction sg net ((ep # eps) ! Suc j)
            (requests w @ map le_url (take (Suc j) (ep # eps))) = None"
      by (metis Suc_less_eq length_Cons)
    with w1 show "source_extraction sg net (eps ! j) (requests w1 @ map le_url (take j eps)) = None"
      by simp
  qed
  from Cons.IH [OF this, of errs'] step show ?case by simp
qed

text \<open>
  C6. A source whose extraction has an empty \<open>leaders\<close> list is passed over: the loop
  goes on to the next source with the result unchanged. For a \<open>leaders\<close> array the
  loop's test is exactly non-emptiness. The result of the loop is the extraction of the
  first source, in list order, that contributes one (each source asked after the
  requests made for the sources before it); when no source does, the result stays
  as it was, \<open>null\<close> at the start.
\<close>

theorem empty_leaders_fall_through:
  "(makeNHLRequest net (le_url ep) w = (data, w1) \<and> truthy data
      \<and> extractor ep data = Inr ex \<and> field ex ''leaders'' = JArr []
     \<longrightarrow> try_leader_urls sg net (ep # eps) (r, errs, w)
           = try_leader_urls sg net eps (r, errs, w1))
   \<and> (truthy ex \<and> field ex ''leaders'' = JArr xs \<longrightarrow> has_leaders sg ex = (xs \<noteq> []))
   \<and> (i < length srcs
      \<and> (\<forall>j<i. source_extraction sg net (srcs ! j) (requests w @ map le_url (take j srcs)) = None)
      \<and> source_extraction sg net (srcs ! i) (requests w @ map le_url (take i srcs)) = Some found
     \<longrightarrow> fst (try_leader_urls sg net srcs (r, errs, w)) = found
         \<and> requests (snd (snd (try_leader_urls sg net srcs (r, errs, w))))
             = requests w @ map le_url (take (Suc i) srcs))
   \<and> ((\<forall>j<length srcs.
          source_extraction sg net (srcs ! j) (requests w @ map le_url (take j srcs)) = None)
     \<longrightarrow> fst (try_leader_urls sg net srcs (r, errs, w)) = r)"
proof -
  have "try_leader_urls sg net (ep # eps) (r, errs, w) = try_leader_urls sg net eps (r, errs, w1)"
    if "makeNHLRequest net (le_url ep) w = (data, w1)" "truthy data"
      "extractor ep data = Inr ex" "field ex ''leaders'' = JArr []"
    using that by (simp add: has_leaders_def)
  then show ?thesis
    using has_leaders_array [of ex xs sg]
      first_source_with_leaders [of i srcs sg net w found r errs]
      no_source_with_leaders [of srcs sg net w r errs]
    by blast
qed

theorem empty_leaders_fall_through_witness:
  "fst (resolve_leaders no_string_gt0 net_leaders_second ''goals'' 10 fresh_world) =
     JObj [(''leaders'', leaders_rows), (''categoryLabel'', JStr ''goals''),
           (''season'', JStr ''current'')]"
proof -
  let ?srcs = "leader_urls ''goals'' 10"
  let ?found = "JObj [(''leaders'', leaders_rows), (''categoryLabel'', JStr ''goals''),
                      (''season'', JStr ''current'')]"
  have a: "Suc 0 < length ?srcs" by (simp add: leader_urls_def)
  have "source_extraction no_string_gt0 net_leaders_second (?srcs ! 0)
          (requests fresh_world @ map le_url (take 0 ?srcs)) = None"
    by code_simp
  then have b: "\<forall>j<Suc 0. source_extraction no_string_gt0 net_leaders_second (?srcs ! j)
          (requests fresh_world @ map le_url (take j ?srcs)) = None"
    by simp
  have c: "source_extraction no_string_gt0 net_leaders_second (?srcs ! Suc 0)
          (requests fresh_world @ map le_url (take (Suc 0) ?srcs)) = Some ?found"
    by code_simp
  from a b c empty_leaders_fall_through
      [where i = "Suc 0" and srcs = ?srcs and sg = no_string_gt0 and net = net_leaders_second
         and w = fresh_world and found = ?found and r = JNull and errs = "[]"]
  show ?thesis by (simp add: resolve_leaders_def)
qed

section \<open>Properties of the enrichment fetches\<close>

lemma resolve_player_not_found:
  assumes "try_player_endpoints net (player_endpoints pid) (JNull, [], w0) = (pd, errs, w1)"
    and "\<not> truthy pd"
  shows "resolve_player net pid w0 = (PlayerNotFound (player_failure_text pid), w1)"
  using assms by (simp add: resolve_player_def)

lemma resolve_player_no_team_id:
  assumes "try_player_endpoints net (player_endpoints pid) (JNull, [], w0) = (pd, errs, w1)"
    and "truthy pd" and "\<not> truthy (field pd ''teamId'')"
  shows "requests (snd (resolve_player net pid w0)) = requests w1 @ [game_log_url pid]"
  using assms requests_makeNHLRequest [of net "game_log_url pid" w1]
  by (auto simp: resolve_player_def split: prod.splits)

lemma resolve_player_team_id:
  assumes "try_player_endpoints net (player_endpoints pid) (JNull, [], w0) = (pd, errs, w1)"
    and "truthy pd" and "truthy (field pd ''teamId'')"
  shows "snd (resolve_player net pid w0) =
           snd (team_lookup net (field pd ''teamId'') (snd (makeNHLRequest net (game_log_url pid) w1)))"
  using assms by (simp add: resolve_player_def split: prod.splits)

lemma lookup_stops_when_named:
  assumes "makeNHLRequest net url w = (teamsData, w1)" and "truthy teamsData"
    and "lookup_in teamsData tid vars = (vars1, None)"
    and "\<not> strict_eq (fst vars1) unknown_team"
  shows "lookup_team_urls net tid (url # urls) (vars, w) = ((vars1, w1), None)"
  using assms by simp

lemma roster_fallback_skipped:
  assumes "\<not> (truthy ta \<and> strict_eq tn unknown_team)"
  shows "roster_fallback net ((tn, ta), w) = ((tn, ta), w)"
  using assms by (auto simp: roster_fallback_def)

lemma roster_fallback_requests:
  "requests (snd (roster_fallback net ((tn, ta), w))) =
     (if truthy ta \<and> strict_eq tn unknown_team then requests w @ [roster_url ta] else requests w)"
  using requests_makeNHLRequest [of net "roster_url ta" w]
  by (auto simp: roster_fallback_def split: prod.splits)

lemma lookup_team_urls_requests:
  assumes "lookup_team_urls net tid urls (vars, w) = ((vars', w'), err)"
  shows "\<exists>n\<le>length urls. requests w' = requests w @ take n urls \<and> (urls \<noteq> [] \<longrightarrow> 0 < n)"
  using assms
proof (induction urls arbitrary: vars w)
  case Nil
  then show ?case by simp
next
  case (Cons url urls)
  obtain teamsData w1 where m: "makeNHLRequest net url w = (teamsData, w1)"
    by (cases "makeNHLRequest net url w")
  then have r1: "requests w1 = requests w @ [url]"
    using requests_makeNHLRequest [of net url w] by simp
  obtain vars1 e where l: "lookup_in teamsData tid vars = (vars1, e)"
    by (cases "lookup_in teamsData tid vars")
  have stop: ?case if "w' = w1"
    using that r1 by (intro exI [of _ 1]) simp
  have go: ?case if "lookup_team_urls net tid urls (v, w1) = ((vars', w'), err)" for v
  proof -
    from Cons.IH [OF that] obtain n where "n \<le> length urls"
      "requests w' = requests w1 @ take n urls" by blast
    with r1 show ?thesis by (intro exI [of _ "Suc n"]) simp
  qed
  show ?case
  proof (cases "truthy teamsData")
    case False
    with m Cons.prems have "lookup_team_urls net tid urls (vars, w1) = ((vars', w'), err)" by simp
    then show ?thesis by (rule go)
  next
    case True
    show ?thesis
    proof (cases e)
      case (Some x)
      with True m l Cons.prems have "w' = w1" by simp
      then show ?thesis by (rule stop)
    next
      case None
      show ?thesis
      proof (cases "strict_eq (fst vars1) unknown_team")
        case False
        with None True m l Cons.prems have "w' = w1" by simp
        then show ?thesis by (rule stop)
      next
        case yes: True
        with None True m l Cons.prems
        have "lookup_team_urls net tid urls (vars1, w1) = ((vars', w'), err)" by simp
        then show ?thesis by (rule go)
      qed
    qed
  qed
qed

lemma team_lookup_requests:
  "\<exists>n r. 0 < n \<and> n \<le> 2
     \<and> requests (snd (team_lookup net tid w)) = requests w @ take n teamUrls @ r
     \<and> (r = [] \<or> (\<exists>ab. r = [roster_url ab]))"
proof -
  obtain tn ta w1 err
    where run: "lookup_team_urls net tid teamUrls ((unknown_team, JStr []), w) = (((tn, ta), w1), err)"
    by (metis prod.collapse)
  have len: "length teamUrls = 2" "teamUrls \<noteq> []" by (simp_all add: teamUrls_def)
  from lookup_team_urls_requests [OF run] len obtain n
    where n: "n \<le> 2" "0 < n" "requests w1 = requests w @ take n teamUrls"
    by auto
  show ?thesis
  proof (cases err)
    case (Some e)
    with run n show ?thesis
      by (intro exI [of _ n] exI [of _ "[]"]) (simp add: team_lookup_def)
  next
    case None
    with run have "team_lookup net tid w = roster_fallback net ((tn, ta), w1)"
      by (simp add: team_lookup_def)
    with n roster_fallback_requests [of net tn ta w1] show ?thesis
      by (intro exI [of _ n] exI [of _ "if truthy ta \<and> strict_eq tn unknown_team then [roster_url ta] else []"])
         auto
  qed
qed

text \<open>
  C9, as the code has it. No enrichment request is made when resolution fails: get-team
  then stops with the requests of its endpoint loop, get-player with those of its own.
  When get-team has a name, the club-stats request follows the loop's requests in every
  case, whether or not the accumulated record already holds a \<open>record\<close>. In get-player
  the game-log request follows in every case and the team lookup is entered only with
  a truthy \<open>teamId\<close>; inside the lookup no further directory URL is requested once a
  team name is found, and the roster URL is requested only with an abbreviation in hand
  and the name still unknown. All the lookup adds to the requests is one or both
  directory URLs in order, then at most the roster URL.
\<close>

theorem enrichment_after_resolution:
  "(try_endpoints net (endpoints (trim (toUpperCase a))) ([], [], w0) = (td, terrs, tw) \<longrightarrow>
      requests (snd (get_team sg net a w0)) =
        (if truthy (obj_get td ''name'')
         then requests tw @ [stats_url (trim (toUpperCase a))] else requests tw))
   \<and> (try_player_endpoints net (player_endpoints pid) (JNull, [], w0) = (pd, perrs, pw) \<longrightarrow>
        (\<not> truthy pd \<longrightarrow>
           resolve_player net pid w0 = (PlayerNotFound (player_failure_text pid), pw))
      \<and> (truthy pd \<and> \<not> truthy (field pd ''teamId'') \<longrightarrow>
           requests (snd (resolve_player net pid w0)) = requests pw @ [game_log_url pid])
      \<and> (truthy pd \<and> truthy (field pd ''teamId'') \<longrightarrow>
           snd (resolve_player net pid w0) =
             snd (team_lookup net (field pd ''teamId'')
                    (snd (makeNHLRequest net (game_log_url pid) pw)))))
   \<and> (makeNHLRequest net url w = (teamsData, w1) \<and> truthy teamsData
        \<and> lookup_in teamsData tid vars = (vars1, None)
        \<and> \<not> strict_eq (fst vars1) unknown_team
      \<longrightarrow> lookup_team_urls net tid (url # urls) (vars, w) = ((vars1, w1), None))
   \<and> requests (snd (roster_fallback net ((tn, ta), w))) =
        (if truthy ta \<and> strict_eq tn unknown_team then requests w @ [roster_url ta]
         else requests w)
   \<and> (\<exists>n r. 0 < n \<and> n \<le> 2
        \<and> requests (snd (team_lookup net tid w)) = requests w @ take n teamUrls @ r
        \<and> (r = [] \<or> (\<exists>ab. r = [roster_url ab])))"
  using team_lookup_requests [of net tid w] get_team_requests [of net a w0 td terrs tw sg]
    resolve_player_not_found [of net pid w0 pd perrs pw]
    resolve_player_no_team_id [of net pid w0 pd perrs pw]
    resolve_player_team_id [of net pid w0 pd perrs pw]
    lookup_stops_when_named [of net url w teamsData w1 tid vars vars1 urls]
    roster_fallback_requests [of net tn ta w]
  by blast

theorem enrichment_after_resolution_witness:
  "requests (snd (get_team no_string_gt0 net_standings_only ''TOR'' fresh_world)) =
     requests (snd (snd (try_endpoints net_standings_only (endpoints (trim (toUpperCase ''TOR'')))
                          ([], [], fresh_world))))
     @ [stats_url (trim (toUpperCase ''TOR''))]
   \<and> lookup_team_urls net_player (JNum 22) teamUrls
         ((unknown_team, JStr []),
          \<lparr>requests = [NHL_WEB_API_BASE @ ''/player/8478402/landing'',
                        NHL_WEB_API_BASE @ ''/player/8478402/game-log/now''],
            errlog = [FetchRejected]\<rparr>)
       = (((JStr ''Edmonton Oilers'', JStr ''EDM''),
           \<lparr>requests = [NHL_WEB_API_BASE @ ''/player/8478402/landing'',
                         NHL_WEB_API_BASE @ ''/player/8478402/game-log/now'',
                         NHL_WEB_API_BASE @ ''/standings/now''],
             errlog = [FetchRejected]\<rparr>), None)"
proof -
  let ?run = "try_endpoints net_standings_only (endpoints (trim (toUpperCase ''TOR'')))
                ([], [], fresh_world)"
  let ?w2 = "\<lparr>requests = [NHL_WEB_API_BASE @ ''/player/8478402/landing'',
                           NHL_WEB_API_BASE @ ''/player/8478402/game-log/now''],
               errlog = [FetchRejected]\<rparr>"
  let ?w3 = "\<lparr>requests = [NHL_WEB_API_BASE @ ''/player/8478402/landing'',
                           NHL_WEB_API_BASE @ ''/player/8478402/game-log/now'',
                           NHL_WEB_API_BASE @ ''/standings/now''],
               errlog = [FetchRejected]\<rparr>"
  have a: "?run = (fst ?run, fst (snd ?run), snd (snd ?run))" by simp
  have b: "truthy (obj_get (fst ?run) ''name'')" by code_simp
  have c: "makeNHLRequest net_player (hd teamUrls) ?w2 = (teams_doc, ?w3)" by code_simp
  have d: "truthy teams_doc" by code_simp
  have e: "lookup_in teams_doc (JNum 22) (unknown_team, JStr [])
             = ((JStr ''Edmonton Oilers'', JStr ''EDM''), None)" by code_simp
  have f: "\<not> strict_eq (fst (JStr ''Edmonton Oilers'', JStr ''EDM'')) unknown_team" by code_simp
  have g: "teamUrls = hd teamUrls # tl teamUrls" by (simp add: teamUrls_def)
  from a b c d e f enrichment_after_resolution
      [where net = net_standings_only and a = "''TOR''" and ?w0.0 = fresh_world
         and td = "fst ?run" and terrs = "fst (snd ?run)" and tw = "snd (snd ?run)"
         and sg = no_string_gt0]
  have one: "requests (snd (get_team no_string_gt0 net_standings_only ''TOR'' fresh_world)) =
     requests (snd (snd ?run)) @ [stats_url (trim (toUpperCase ''TOR''))]"
    by simp
  from c d e f enrichment_after_resolution
      [where net = net_player and url = "hd teamUrls" and w = ?w2 and teamsData = teams_doc
         and ?w1.0 = ?w3 and tid = "JNum 22" and vars = "(unknown_team, JStr [])"
         and ?vars1.0 = "(JStr ''Edmonton Oilers'', JStr ''EDM'')" and urls = "tl teamUrls"]
  have "lookup_team_urls net_player (JNum 22) (hd teamUrls # tl teamUrls)
          ((unknown_team, JStr []), ?w2)
        = (((JStr ''Edmonton Oilers'', JStr ''EDM''), ?w3), None)"
    by blast
  with g one show ?thesis by simp
qed

theorem unconditional_stats_fetch_counterexample:
  "truthy (obj_get (fst (try_endpoints net_standings_only (endpoints ''TOR'')
                           ([], [], fresh_world))) ''record'')
   \<and> requests (snd (get_team no_string_gt0 net_standings_only ''TOR'' fresh_world))
       = map ep_url (endpoints ''TOR'') @ [stats_url ''TOR'']"
  by code_simp

section \<open>Properties of get-current-standings\<close>

lemma or_zero_simps: "or_zero None = 0" "or_zero (Some n) = n"
  by (simp_all add: or_zero_def)

lemma mset_insert_by: "mset (insert_by cmp x ys) = add_mset x (mset ys)"
  by (induction ys) simp_all

lemma mset_js_sort: "mset (js_sort cmp xs) = mset xs"
  by (induction xs) (simp_all add: js_sort_def mset_insert_by)

lemma set_insert_by: "set (insert_by cmp x ys) = insert x (set ys)"
  by (induction ys) auto

lemma sorted_insert_by_points:
  assumes "sorted_wrt (\<lambda>a b. or_zero (points b) \<le> or_zero (points a)) ys"
  shows "sorted_wrt (\<lambda>a b. or_zero (points b) \<le> or_zero (points a)) (insert_by compare_points x ys)"
  using assms
proof (induction ys)
  case Nil
  then show ?case by simp
next
  case (Cons y ys)
  show ?case
  proof (cases "compare_points x y \<le> 0")
    case True
    then have "or_zero (points y) \<le> or_zero (points x)" by (simp add: compare_points_def)
    with Cons.prems True show ?thesis by auto
  next
    case False
    then have "or_zero (points x) \<le> or_zero (points y)" by (simp add: compare_points_def)
    with Cons False show ?thesis by (auto simp: set_insert_by)
  qed
qed

lemma sorted_js_sort_points:
  "sorted_wrt (\<lambda>a b. or_zero (points b) \<le> or_zero (points a)) (js_sort compare_points teams)"
proof (induction teams)
  case Nil
  then show ?case by (simp add: js_sort_def)
next
  case (Cons t teams)
  from sorted_insert_by_points [OF Cons.IH, of t] show ?case by (simp add: js_sort_def)
qed

lemma format_row_columns:
  "format_row team =
     join '' | ''
       [or_str (map_option default_text (teamName team)) ''Unknown'',
        show_int (or_zero (wins team) + or_zero (losses team) + or_zero (otLosses team)),
        show_int (or_zero (wins team)), show_int (or_zero (losses team)),
        show_int (or_zero (otLosses team)), show_int (or_zero (points team)),
        show_int (or_zero (goalsFor team)), show_int (or_zero (goalAgainst team))]"
  by (simp add: format_row_def Let_def)

lemma format_row_truncate:
  "format_row (standings_team.truncate team) = format_row team"
  by (simp add: format_row_def standings_team.truncate_def)

lemma format_division_rows:
  "format_division (division, teams) =
     [CHR 0x0A # ''## '' @ division @ '' Division'',
      ''Team | GP | W | L | OTL | PTS | GF | GA'',
      ''-----|----|----|----|----|-----|----|----|'']
     @ map format_row (js_sort compare_points teams)"
  by (simp add: format_division_def)

lemma get_current_standings_text:
  assumes "standings response = Some teams" and "teams \<noteq> []"
  shows "get_current_standings (Some response)
           = join [CHR 0x0A] (concat (map format_division (divisionMap teams)))"
  using assms by (simp add: get_current_standings_def formattedStandings_def)

lemma set_update_subset: "set (AList.update k v al) \<subseteq> insert (k, v) (set al)"
  by (induction al) auto

lemma grouped_update:
  assumes "grouped m" and "\<forall>t\<in>set ts. or_str (divisionName t) ''Unknown Division'' = d"
  shows "grouped (AList.update d ts m)"
  using assms set_update_subset [of d ts m] by (fastforce simp: grouped_def)

lemma add_team_grouped:
  assumes "grouped m"
  shows "grouped (add_team m team)"
proof -
  let ?d = "or_str (divisionName team) ''Unknown Division''"
  let ?m1 = "if map_of m ?d = None then AList.update ?d [] m else m"
  have m1: "grouped ?m1" using assms grouped_update [of m "[]" ?d] by simp
  show ?thesis
  proof (cases "map_of ?m1 ?d")
    case None
    with m1 show ?thesis by (simp add: add_team_def Let_def)
  next
    case (Some ts)
    then have "(?d, ts) \<in> set ?m1" by (rule map_of_SomeD)
    with m1 have "\<forall>t\<in>set ts. or_str (divisionName t) ''Unknown Division'' = ?d"
      by (fastforce simp: grouped_def)
    then have "\<forall>t\<in>set (ts @ [team]). or_str (divisionName t) ''Unknown Division'' = ?d"
      by simp
    from grouped_update [OF m1 this] Some show ?thesis by (simp add: add_team_def Let_def)
  qed
qed

lemma foldl_add_team_grouped: "grouped m \<Longrightarrow> grouped (foldl add_team m teams)"
  by (induction teams arbitrary: m) (simp_all add: add_team_grouped)

lemma divisionMap_grouped:
  assumes "(d, ts) \<in> set (divisionMap teams)" and "t \<in> set ts"
  shows "or_str (divisionName t) ''Unknown Division'' = d"
proof -
  have "grouped (divisionMap teams)"
    unfolding divisionMap_def by (rule foldl_add_team_grouped) (simp add: grouped_def)
  with assms show ?thesis by (fastforce simp: grouped_def)
qed

text \<open>
  C10. A rendered row has eight columns, the second being wins + losses + otLosses with
  each missing component counted as 0; the row depends on the declared fields only, so
  whatever else the upstream row carries (a \<open>gamesPlayed\<close> field included) leaves it
  unchanged. The rows of a division are those of its teams, sorted so that points
  (missing points counted as 0) never increase down the list; the teams under a
  division heading are the teams of that division, and the answer is the divisions'
  blocks in order.
\<close>

theorem standings_rows_gp_and_order:
  "format_row team =
     join '' | ''
       [or_str (map_option default_text (teamName team)) ''Unknown'',
        show_int (or_zero (wins team) + or_zero (losses team) + or_zero (otLosses team)),
        show_int (or_zero (wins team)), show_int (or_zero (losses team)),
        show_int (or_zero (otLosses team)), show_int (or_zero (points team)),
        show_int (or_zero (goalsFor team)), show_int (or_zero (goalAgainst team))]
   \<and> format_row (standings_team.truncate team) = format_row team
   \<and> format_division (division, teams) =
       [CHR 0x0A # ''## '' @ division @ '' Division'',
        ''Team | GP | W | L | OTL | PTS | GF | GA'',
        ''-----|----|----|----|----|-----|----|----|'']
       @ map format_row (js_sort compare_points teams)
   \<and> sorted_wrt (\<lambda>a b. or_zero (points b) \<le> or_zero (points a)) (js_sort compare_points teams)
   \<and> mset (js_sort compare_points teams) = mset teams
   \<and> (standings response = Some all_teams \<and> all_teams \<noteq> [] \<longrightarrow>
        get_current_standings (Some response)
          = join [CHR 0x0A] (concat (map format_division (divisionMap all_teams))))
   \<and> ((d, ts) \<in> set (divisionMap all_teams) \<and> t \<in> set ts \<longrightarrow>
        or_str (divisionName t) ''Unknown Division'' = d)"
  using format_row_columns [of team] format_row_truncate [of team]
    format_division_rows [of division teams] sorted_js_sort_points [of teams]
    mset_js_sort [of compare_points teams]
    get_current_standings_text [of response all_teams]
    divisionMap_grouped [of d ts all_teams t]
  by blast

theorem standings_rows_gp_and_order_witness:
  "get_current_standings (Some \<lparr>standings = Some [leafs_row, bruins_row]\<rparr>) =
     join [CHR 0x0A]
       [CHR 0x0A # ''## Atlantic Division'',
        ''Team | GP | W | L | OTL | PTS | GF | GA'',
        ''-----|----|----|----|----|-----|----|----|'',
        ''Boston Bruins | 16 | 12 | 3 | 1 | 25 | 55 | 38'',
        ''Toronto Maple Leafs | 15 | 10 | 5 | 0 | 20 | 50 | 41'']
   \<and> or_str (divisionName leafs_row) ''Unknown Division'' = ''Atlantic''"
proof -
  let ?r = "\<lparr>standings = Some [leafs_row, bruins_row]\<rparr>"
  have a: "standings ?r = Some [leafs_row, bruins_row]" by simp
  have b: "[leafs_row, bruins_row] \<noteq> []" by simp
  have c: "join [CHR 0x0A] (concat (map format_division (divisionMap [leafs_row, bruins_row])))
           = join [CHR 0x0A]
               [CHR 0x0A # ''## Atlantic Division'',
                ''Team | GP | W | L | OTL | PTS | GF | GA'',
                ''-----|----|----|----|----|-----|----|----|'',
                ''Boston Bruins | 16 | 12 | 3 | 1 | 25 | 55 | 38'',
                ''Toronto Maple Leafs | 15 | 10 | 5 | 0 | 20 | 50 | 41'']"
    by code_simp
  have d: "(''Atlantic'', [leafs_row, bruins_row]) \<in> set (divisionMap [leafs_row, bruins_row])"
    by code_simp
  have e: "leafs_row \<in> set [leafs_row, bruins_row]" by simp
  from a b d e standings_rows_gp_and_order
      [where response = ?r and all_teams = "[leafs_row, bruins_row]" and d = "''Atlantic''"
         and ts = "[leafs_row, bruins_row]" and t = leafs_row]
  have "get_current_standings (Some ?r)
          = join [CHR 0x0A] (concat (map format_division (divisionMap [leafs_row, bruins_row])))"
    "or_str (divisionName leafs_row) ''Unknown Division'' = ''Atlantic''"
    by blast+
  with c show ?thesis by simp
qed

end
